theory Spec2Isabelle
  imports Complex_Main
begin

section \<open>Chunk generation of src/chunkWorker.ts\<close>

text \<open>
  The worker builds one chunk of a voxel world: a nested array \<open>data[x][y][z]\<close> of block
  identifiers, filled by three stages that mutate it in place (resources, terrain, trees).

  Conventions of the embedding.
  \<^item> A JavaScript \<open>number\<close> that the code uses as an array index or a loop bound is an
    \<open>int\<close>; every other \<open>number\<close> (noise samples, random draws, offsets, magnitudes,
    scales, thresholds) is a \<open>real\<close>, that is a finite double with its rounding error left
    out. \<open>NaN\<close> and the infinities are not modelled.
  \<^item> A JavaScript array is the finite map from its indices to its elements. Reading a
    missing index gives \<open>undefined\<close> (\<open>None\<close>); indexing \<open>undefined\<close> throws a
    \<open>TypeError\<close>; assigning to a missing index of an existing array creates it.
  \<^item> An exception is the left summand of the result. The grid mutated before the throw
    is dropped, as it is for the caller of \<open>generateChunk\<close>.
  \<^item> The random number generator and the simplex noise are black boxes, passed as a
    record of functions over an abstract generator state.
\<close>

subsection \<open>Data\<close>

text \<open>
  Modelled from the spec: the enumeration \<open>BlockID\<close> of \<open>./Block\<close> (not among the
  sources): Air, Bedrock, Stone, Dirt, Grass, OakLog, Leaves, and one identifier for each
  resource, here \<open>Ore n\<close>.
\<close>

datatype BlockID = Air | Grass | Dirt | Stone | Bedrock | OakLog | Leaves | Ore nat

datatype error = TypeError | RangeError

type_synonym row = "int \<rightharpoonup> BlockID"
type_synonym chunkData = "int \<rightharpoonup> (int \<rightharpoonup> row)"

text \<open>
  Modelled from the spec: \<open>WorldSize\<close> and \<open>WorldParams\<close> of \<open>./WorldChunk\<close> and the
  entries of \<open>oreConfig\<close> of \<open>./Block\<close> (type declarations and a table that are not among
  the sources). The nested objects are flattened: \<open>trees_canopy_size_max\<close> is
  \<open>params.trees.canopy.size.max\<close>. Sizes and tree heights are integers.
\<close>

record WorldSize =
  width :: int
  height :: int

record WorldParams =
  seed :: real
  terrain_scale :: real
  terrain_offset :: real
  terrain_magnitude :: real
  surface_offset :: real
  surface_magnitude :: real
  bedrock_offset :: real
  bedrock_magnitude :: real
  trees_frequency :: real
  trees_trunkHeight_min :: int
  trees_trunkHeight_max :: int
  trees_canopy_density :: real
  trees_canopy_size_min :: int
  trees_canopy_size_max :: int

record OreConfig =
  config_id :: BlockID
  config_scale_x :: real
  config_scale_y :: real
  config_scale_z :: real
  config_scarcity :: real

record Vector3 =
  vec_x :: real
  vec_y :: real
  vec_z :: real

text \<open>
  Modelled from the spec: the class \<open>RNG\<close> of \<open>./RNG\<close> and the class \<open>SimplexNoise\<close>
  of three (not among the sources), as the black boxes that the spec takes them for: a
  deterministic generator and a deterministic noise field.
  \<open>noise\<close> and \<open>noise3d\<close> are the methods of a \<open>SimplexNoise\<close> object;
  once built they are pure. \<open>RNG_new\<close> is \<open>new RNG(seed)\<close>, \<open>RNG_random\<close> is
  \<open>rng.random()\<close>, which returns the draw and the advanced generator, and
  \<open>SimplexNoise_new\<close> is \<open>new SimplexNoise(rng)\<close>, which draws from the generator to
  build its permutation table.
\<close>

record SimplexNoise =
  noise :: "real \<Rightarrow> real \<Rightarrow> real"
  noise3d :: "real \<Rightarrow> real \<Rightarrow> real \<Rightarrow> real"

record 'r Random =
  RNG_new :: "real \<Rightarrow> 'r"
  RNG_random :: "'r \<Rightarrow> real \<times> 'r"
  SimplexNoise_new :: "'r \<Rightarrow> SimplexNoise \<times> 'r"

subsection \<open>Array access\<close>

text \<open>\<open>input[x][y][z]\<close>: a \<open>TypeError\<close> when \<open>input[x]\<close> or \<open>input[x][y]\<close> is undefined.\<close>

definition getBlock :: "chunkData \<Rightarrow> int \<Rightarrow> int \<Rightarrow> int \<Rightarrow> error + BlockID option" where
  "getBlock input x y z =
     (case input x of
        None \<Rightarrow> Inl TypeError
      | Some plane \<Rightarrow>
          (case plane y of
             None \<Rightarrow> Inl TypeError
           | Some r \<Rightarrow> Inr (r z)))"

text \<open>\<open>input[x][y][z] = v\<close>: the same errors; the innermost array takes any index.\<close>

definition setBlock :: "chunkData \<Rightarrow> int \<Rightarrow> int \<Rightarrow> int \<Rightarrow> BlockID \<Rightarrow> error + chunkData" where
  "setBlock input x y z v =
     (case input x of
        None \<Rightarrow> Inl TypeError
      | Some plane \<Rightarrow>
          (case plane y of
             None \<Rightarrow> Inl TypeError
           | Some r \<Rightarrow> Inr (input(x \<mapsto> plane(y \<mapsto> r(z \<mapsto> v))))))"

text \<open>What a reader of the grid sees: the cell, and whether its row exists.\<close>

definition cell :: "chunkData \<Rightarrow> int \<Rightarrow> int \<Rightarrow> int \<Rightarrow> BlockID option" where
  "cell input x y z =
     (case input x of
        None \<Rightarrow> None
      | Some plane \<Rightarrow> (case plane y of None \<Rightarrow> None | Some r \<Rightarrow> r z))"

definition hasRow :: "chunkData \<Rightarrow> int \<Rightarrow> int \<Rightarrow> bool" where
  "hasRow input x y =
     (case input x of None \<Rightarrow> False | Some plane \<Rightarrow> plane y \<noteq> None)"

subsection \<open>Loops\<close>

text \<open>
  A \<open>for\<close> loop over the indices \<open>xs\<close> whose body may throw: the first exception ends
  the loop. \<open>continue\<close> is a body that returns its state unchanged.
\<close>

fun forM :: "'a list \<Rightarrow> ('a \<Rightarrow> 's \<Rightarrow> error + 's) \<Rightarrow> 's \<Rightarrow> error + 's" where
  "forM [] body s = Inr s"
| "forM (a # as) body s =
     (case body a s of Inl e \<Rightarrow> Inl e | Inr s' \<Rightarrow> forM as body s')"

subsection \<open>initEmptyChunk\<close>

text \<open>
  \<open>new Array(n)\<close> throws a \<open>RangeError\<close> unless \<open>n\<close> is an integer with
  \<open>0 \<le> n < 2^32\<close>. The loops only assign, so they cannot throw.
\<close>

definition newArray :: "int \<Rightarrow> error + (int \<rightharpoonup> 'a)" where
  "newArray n = (if 0 \<le> n \<and> n < 4294967296 then Inr Map.empty else Inl RangeError)"

definition initRow :: "WorldSize \<Rightarrow> error + row" where
  "initRow chunkSize =
     (case newArray (width chunkSize) of
        Inl e \<Rightarrow> Inl e
      | Inr r \<Rightarrow> forM [0..width chunkSize - 1] (\<lambda>z r. Inr (r(z \<mapsto> Air))) r)"

definition initPlane :: "WorldSize \<Rightarrow> error + (int \<rightharpoonup> row)" where
  "initPlane chunkSize =
     (case newArray (height chunkSize) of
        Inl e \<Rightarrow> Inl e
      | Inr plane \<Rightarrow>
          forM [0..height chunkSize - 1]
            (\<lambda>y plane. case initRow chunkSize of
                          Inl e \<Rightarrow> Inl e
                        | Inr r \<Rightarrow> Inr (plane(y \<mapsto> r))) plane)"

definition initEmptyChunk :: "WorldSize \<Rightarrow> error + chunkData" where
  "initEmptyChunk chunkSize =
     (case newArray (width chunkSize) of
        Inl e \<Rightarrow> Inl e
      | Inr data \<Rightarrow>
          forM [0..width chunkSize - 1]
            (\<lambda>x data. case initPlane chunkSize of
                         Inl e \<Rightarrow> Inl e
                       | Inr plane \<Rightarrow> Inr (data(x \<mapsto> plane))) data)"

subsection \<open>generateResources\<close>

text \<open>The sample \<open>value\<close> of a resource at a cell, and the body of the innermost loop.\<close>

definition oreSample :: "SimplexNoise \<Rightarrow> OreConfig \<Rightarrow> Vector3 \<Rightarrow> int \<Rightarrow> int \<Rightarrow> int \<Rightarrow> real" where
  "oreSample simplex config chunkPos x y z =
     noise3d simplex
       ((vec_x chunkPos + real_of_int x) / config_scale_x config)
       ((vec_y chunkPos + real_of_int y) / config_scale_y config)
       ((vec_z chunkPos + real_of_int z) / config_scale_z config)"

definition oreCell ::
  "SimplexNoise \<Rightarrow> OreConfig \<Rightarrow> Vector3 \<Rightarrow> int \<Rightarrow> int \<Rightarrow> int \<Rightarrow> chunkData \<Rightarrow> error + chunkData" where
  "oreCell simplex config chunkPos x y z input =
     (let v = oreSample simplex config chunkPos x y z
      in if v > config_scarcity config
         then setBlock input x y z (config_id config)
         else Inr input)"

definition orePass ::
  "SimplexNoise \<Rightarrow> WorldSize \<Rightarrow> Vector3 \<Rightarrow> OreConfig \<Rightarrow> chunkData \<Rightarrow> error + chunkData" where
  "orePass simplex wsize chunkPos config =
     forM [0..width wsize - 1] (\<lambda>x.
       forM [0..height wsize - 1] (\<lambda>y.
         forM [0..width wsize - 1] (\<lambda>z.
           oreCell simplex config chunkPos x y z)))"

definition generateResources ::
  "'r Random \<Rightarrow> OreConfig list \<Rightarrow> 'r \<Rightarrow> chunkData \<Rightarrow> WorldSize \<Rightarrow> Vector3
     \<Rightarrow> error + 'r \<times> chunkData" where
  "generateResources env oreConfig rng input wsize chunkPos =
     (case SimplexNoise_new env rng of
        (simplex, rng') \<Rightarrow>
          (case forM oreConfig (orePass simplex wsize chunkPos) input of
             Inl e \<Rightarrow> Inl e
           | Inr out \<Rightarrow> Inr (rng', out)))"

subsection \<open>generateTerrain\<close>

definition columnHeight :: "SimplexNoise \<Rightarrow> WorldSize \<Rightarrow> WorldParams \<Rightarrow> Vector3 \<Rightarrow> int \<Rightarrow> int \<Rightarrow> int" where
  "columnHeight simplex wsize params chunkPos x z =
     (let v = noise simplex
                ((vec_x chunkPos + real_of_int x) / terrain_scale params)
                ((vec_z chunkPos + real_of_int z) / terrain_scale params);
          scaledNoise = terrain_offset params + terrain_magnitude params * v;
          h = \<lfloor>real_of_int (height wsize) * scaledNoise\<rfloor>
      in max 0 (min h (height wsize - 1)))"

definition numSurfaceBlocks :: "SimplexNoise \<Rightarrow> WorldParams \<Rightarrow> int \<Rightarrow> int \<Rightarrow> real" where
  "numSurfaceBlocks simplex params x z =
     surface_offset params
       + \<bar>noise simplex (real_of_int x) (real_of_int z) * surface_magnitude params\<bar>"

definition numBedrockBlocks :: "SimplexNoise \<Rightarrow> WorldParams \<Rightarrow> int \<Rightarrow> int \<Rightarrow> real" where
  "numBedrockBlocks simplex params x z =
     bedrock_offset params
       + \<bar>noise simplex (real_of_int x) (real_of_int z) * bedrock_magnitude params\<bar>"

definition terrainCell ::
  "int \<Rightarrow> real \<Rightarrow> real \<Rightarrow> int \<Rightarrow> int \<Rightarrow> int \<Rightarrow> chunkData \<Rightarrow> error + chunkData" where
  "terrainCell h nSurface nBedrock x z y input =
     (if y < h then
        (if real_of_int y < nBedrock then setBlock input x y z Bedrock
         else if real_of_int y < real_of_int h - nSurface then
           (case getBlock input x y z of
              Inl e \<Rightarrow> Inl e
            | Inr b \<Rightarrow> if b = Some Air then setBlock input x y z Stone else Inr input)
         else setBlock input x y z Dirt)
      else if y = h then setBlock input x y z Grass
      else if y > h then setBlock input x y z Air
      else Inr input)"

definition terrainColumn ::
  "SimplexNoise \<Rightarrow> WorldSize \<Rightarrow> WorldParams \<Rightarrow> Vector3 \<Rightarrow> int \<Rightarrow> int \<Rightarrow> chunkData \<Rightarrow> error + chunkData" where
  "terrainColumn simplex wsize params chunkPos x z =
     forM [0..height wsize - 1]
       (terrainCell (columnHeight simplex wsize params chunkPos x z)
          (numSurfaceBlocks simplex params x z) (numBedrockBlocks simplex params x z) x z)"

definition generateTerrain ::
  "'r Random \<Rightarrow> 'r \<Rightarrow> chunkData \<Rightarrow> WorldSize \<Rightarrow> WorldParams \<Rightarrow> Vector3
     \<Rightarrow> error + 'r \<times> chunkData" where
  "generateTerrain env rng input wsize params chunkPos =
     (case SimplexNoise_new env rng of
        (simplex, rng') \<Rightarrow>
          (case forM [0..width wsize - 1] (\<lambda>x.
                  forM [0..width wsize - 1] (\<lambda>z.
                    terrainColumn simplex wsize params chunkPos x z)) input of
             Inl e \<Rightarrow> Inl e
           | Inr out \<Rightarrow> Inr (rng', out)))"

subsection \<open>generateTrees\<close>

text \<open>\<open>Math.round(r * (hi - lo)) + lo\<close>; \<open>Math.round\<close> rounds a half upwards, as \<open>round\<close> does.\<close>

definition drawSize :: "real \<Rightarrow> int \<Rightarrow> int \<Rightarrow> int" where
  "drawSize r lo hi = round (r * real_of_int (hi - lo)) + lo"

text \<open>The body of the innermost canopy loop, at the offset \<open>(x, y, z)\<close> from the trunk's top.\<close>

definition leafCell ::
  "'r Random \<Rightarrow> WorldParams \<Rightarrow> int \<Rightarrow> int \<Rightarrow> int \<Rightarrow> int \<Rightarrow> int \<Rightarrow> int \<Rightarrow> int
     \<Rightarrow> 'r \<times> chunkData \<Rightarrow> error + 'r \<times> chunkData" where
  "leafCell env params baseX topY baseZ R x y z st =
     (case st of (rng, input) \<Rightarrow>
        if x * x + y * y + z * z > R * R then Inr (rng, input)
        else
          (case getBlock input (baseX + x) (topY + y) (baseZ + z) of
             Inl e \<Rightarrow> Inl e
           | Inr b \<Rightarrow>
               if b \<noteq> Some Air then Inr (rng, input)
               else
                 (case RNG_random env rng of
                    (r, rng') \<Rightarrow>
                      if r > trees_canopy_density params then
                        (case setBlock input (baseX + x) (topY + y) (baseZ + z) Leaves of
                           Inl e \<Rightarrow> Inl e
                         | Inr out \<Rightarrow> Inr (rng', out))
                      else Inr (rng', input))))"

definition generateCanopy ::
  "'r Random \<Rightarrow> WorldParams \<Rightarrow> int \<Rightarrow> int \<Rightarrow> int \<Rightarrow> int
     \<Rightarrow> 'r \<times> chunkData \<Rightarrow> error + 'r \<times> chunkData" where
  "generateCanopy env params baseX topY baseZ R =
     forM [- R..R] (\<lambda>x.
       forM [- R..R] (\<lambda>y.
         forM [- R..R] (\<lambda>z.
           leafCell env params baseX topY baseZ R x y z)))"

text \<open>The body of the scan once grass is found at \<open>y\<close>: the trunk, then the canopy.\<close>

definition growTree ::
  "'r Random \<Rightarrow> WorldParams \<Rightarrow> int \<Rightarrow> int \<Rightarrow> int
     \<Rightarrow> 'r \<times> chunkData \<Rightarrow> error + 'r \<times> chunkData" where
  "growTree env params baseX baseZ y st =
     (case st of (rng, input) \<Rightarrow>
        (let baseY = y + 1;
             minH = trees_trunkHeight_min params;
             maxH = trees_trunkHeight_max params
         in case RNG_random env rng of
              (r1, rng1) \<Rightarrow>
                (let trunkHeight = drawSize r1 minH maxH;
                     topY = baseY + trunkHeight
                 in case forM [baseY..topY - 1]
                           (\<lambda>i inp. setBlock inp baseX i baseZ OakLog) input of
                      Inl e \<Rightarrow> Inl e
                    | Inr input1 \<Rightarrow>
                        (let minR = trees_canopy_size_min params;
                             maxR = trees_canopy_size_max params
                         in case RNG_random env rng1 of
                              (r2, rng2) \<Rightarrow>
                                generateCanopy env params baseX topY baseZ
                                  (drawSize r2 minR maxR) (rng2, input1)))))"

text \<open>The body of the scan \<open>for (let y = size.height - 1; y >= 0; y--)\<close>.\<close>

definition scanCell ::
  "'r Random \<Rightarrow> WorldParams \<Rightarrow> int \<Rightarrow> int \<Rightarrow> int
     \<Rightarrow> 'r \<times> chunkData \<Rightarrow> error + 'r \<times> chunkData" where
  "scanCell env params baseX baseZ y st =
     (case getBlock (snd st) baseX y baseZ of
        Inl e \<Rightarrow> Inl e
      | Inr b \<Rightarrow>
          if b \<noteq> Some Grass then Inr st
          else growTree env params baseX baseZ y st)"

text \<open>The sample \<open>n\<close> of a candidate column, and the body of the loops over the candidates.\<close>

definition treeNoise :: "SimplexNoise \<Rightarrow> Vector3 \<Rightarrow> int \<Rightarrow> int \<Rightarrow> real" where
  "treeNoise simplex chunkPos baseX baseZ =
     noise simplex (vec_x chunkPos + real_of_int baseX)
       (vec_z chunkPos + real_of_int baseZ) * 0.5 + 0.5"

definition treeColumn ::
  "'r Random \<Rightarrow> SimplexNoise \<Rightarrow> WorldSize \<Rightarrow> WorldParams \<Rightarrow> Vector3 \<Rightarrow> int \<Rightarrow> int
     \<Rightarrow> 'r \<times> chunkData \<Rightarrow> error + 'r \<times> chunkData" where
  "treeColumn env simplex wsize params chunkPos baseX baseZ st =
     (let n = treeNoise simplex chunkPos baseX baseZ
      in if n < 1 - trees_frequency params then Inr st
         else forM (rev [0..height wsize - 1]) (scanCell env params baseX baseZ) st)"

text \<open>The indices of \<open>for (let b = canopySize; b < size.width - canopySize; b++)\<close>.\<close>

definition candidates :: "WorldSize \<Rightarrow> WorldParams \<Rightarrow> int list" where
  "candidates wsize params =
     (let canopySize = trees_canopy_size_max params
      in [canopySize..width wsize - canopySize - 1])"

definition generateTrees ::
  "'r Random \<Rightarrow> 'r \<Rightarrow> chunkData \<Rightarrow> WorldSize \<Rightarrow> WorldParams \<Rightarrow> Vector3
     \<Rightarrow> error + 'r \<times> chunkData" where
  "generateTrees env rng input wsize params chunkPos =
     (case SimplexNoise_new env rng of
        (simplex, rng') \<Rightarrow>
          forM (candidates wsize params) (\<lambda>baseX.
            forM (candidates wsize params) (\<lambda>baseZ.
              treeColumn env simplex wsize params chunkPos baseX baseZ)) (rng', input))"

subsection \<open>generateChunk\<close>

text \<open>
  The promise of the \<open>async\<close> function: fulfilled with the grid (\<open>Inr\<close>) or rejected
  with the exception (\<open>Inl\<close>). \<open>oreConfig\<close> is the module's table, in the order of
  \<open>Object.entries\<close>.
\<close>

definition generateChunk ::
  "'r Random \<Rightarrow> OreConfig list \<Rightarrow> WorldSize \<Rightarrow> WorldParams \<Rightarrow> real \<Rightarrow> real
     \<Rightarrow> error + chunkData" where
  "generateChunk env oreConfig chunkSize params x z =
     (let chunkPos = \<lparr>vec_x = x, vec_y = 0, vec_z = z\<rparr>
      in case initEmptyChunk chunkSize of
           Inl e \<Rightarrow> Inl e
         | Inr data0 \<Rightarrow>
             (let rng = RNG_new env (seed params)
              in case generateResources env oreConfig rng data0 chunkSize chunkPos of
                   Inl e \<Rightarrow> Inl e
                 | Inr (rng1, data1) \<Rightarrow>
                     (case generateTerrain env rng1 data1 chunkSize params chunkPos of
                        Inl e \<Rightarrow> Inl e
                      | Inr (rng2, data2) \<Rightarrow>
                          (case generateTrees env rng2 data2 chunkSize params chunkPos of
                             Inl e \<Rightarrow> Inl e
                           | Inr (rng3, data3) \<Rightarrow> Inr data3))))"

subsection \<open>generateChunk in a store of generators\<close>

text \<open>
  The generator of a call is an object: \<open>new RNG(seed)\<close> allocates it, the three stages
  receive a reference to it, and \<open>rng.random()\<close> and \<open>new SimplexNoise(rng)\<close> advance it
  in place. A store holds the generator objects of the worker, those of earlier calls
  among them; \<open>fresh\<close> is the next free reference.
\<close>

record 'r Store =
  rngAt :: "nat \<Rightarrow> 'r"
  fresh :: nat

definition newRNG :: "'r Random \<Rightarrow> real \<Rightarrow> 'r Store \<Rightarrow> 'r Store \<times> nat" where
  "newRNG env s store =
     (store\<lparr>rngAt := (rngAt store)(fresh store := RNG_new env s), fresh := Suc (fresh store)\<rparr>,
      fresh store)"

text \<open>
  The black boxes through a reference: the state of a stage is the store and the
  reference that the variable \<open>rng\<close> holds. (\<open>RNG_new\<close> is the allocation in a store
  without objects; \<open>generateChunkIn\<close> allocates in the store it is given.)
\<close>

definition byReference :: "'r Random \<Rightarrow> ('r Store \<times> nat) Random" where
  "byReference env =
     \<lparr>RNG_new = (\<lambda>s. newRNG env s \<lparr>rngAt = (\<lambda>_. RNG_new env s), fresh = 0\<rparr>),
      RNG_random = (\<lambda>(store, a).
        case RNG_random env (rngAt store a) of
          (r, s') \<Rightarrow> (r, (store\<lparr>rngAt := (rngAt store)(a := s')\<rparr>, a))),
      SimplexNoise_new = (\<lambda>(store, a).
        case SimplexNoise_new env (rngAt store a) of
          (simplex, s') \<Rightarrow> (simplex, (store\<lparr>rngAt := (rngAt store)(a := s')\<rparr>, a)))\<rparr>"

text \<open>Lines 20 to 22 of \<open>generateChunk\<close>: the three stages on one generator and one grid.\<close>

definition runStages ::
  "'r Random \<Rightarrow> OreConfig list \<Rightarrow> WorldSize \<Rightarrow> WorldParams \<Rightarrow> Vector3 \<Rightarrow> 'r \<Rightarrow> chunkData
     \<Rightarrow> error + 'r \<times> chunkData" where
  "runStages env oreConfig chunkSize params chunkPos rng data0 =
     (case generateResources env oreConfig rng data0 chunkSize chunkPos of
        Inl e \<Rightarrow> Inl e
      | Inr (rng1, data1) \<Rightarrow>
          (case generateTerrain env rng1 data1 chunkSize params chunkPos of
             Inl e \<Rightarrow> Inl e
           | Inr (rng2, data2) \<Rightarrow> generateTrees env rng2 data2 chunkSize params chunkPos))"

text \<open>
  \<open>generateChunk\<close> called in a store: the grid it returns, and the store it leaves, with
  the generator of this call in it.
\<close>

definition generateChunkIn ::
  "'r Random \<Rightarrow> OreConfig list \<Rightarrow> WorldSize \<Rightarrow> WorldParams \<Rightarrow> real \<Rightarrow> real \<Rightarrow> 'r Store
     \<Rightarrow> error + chunkData \<times> 'r Store" where
  "generateChunkIn env oreConfig chunkSize params x z store =
     (let chunkPos = \<lparr>vec_x = x, vec_y = 0, vec_z = z\<rparr>
      in case initEmptyChunk chunkSize of
           Inl e \<Rightarrow> Inl e
         | Inr data0 \<Rightarrow>
             (let rng = newRNG env (seed params) store
              in case runStages (byReference env) oreConfig chunkSize params chunkPos rng data0 of
                   Inl e \<Rightarrow> Inl e
                 | Inr ((store', a), data3) \<Rightarrow> Inr (data3, store')))"

section \<open>Closed forms, invariants and relations used in the statements\<close>

text \<open>The grid that \<open>initEmptyChunk\<close> builds, and the reading of a cell of a result.\<close>

definition emptyChunk :: "WorldSize \<Rightarrow> chunkData" where
  "emptyChunk chunkSize =
     (\<lambda>x. if 0 \<le> x \<and> x < width chunkSize
          then Some (\<lambda>y. if 0 \<le> y \<and> y < height chunkSize
                          then Some (\<lambda>z. if 0 \<le> z \<and> z < width chunkSize then Some Air else None)
                          else None)
          else None)"

definition blockAt :: "error + 'r \<times> chunkData \<Rightarrow> int \<Rightarrow> int \<Rightarrow> int \<Rightarrow> error + BlockID option" where
  "blockAt res x y z = (case res of Inl e \<Rightarrow> Inl e | Inr (rng, g) \<Rightarrow> Inr (cell g x y z))"

text \<open>The cells of a chunk.\<close>

definition inChunk :: "WorldSize \<Rightarrow> int \<Rightarrow> int \<Rightarrow> int \<Rightarrow> bool" where
  "inChunk wsize x y z \<longleftrightarrow>
     0 \<le> x \<and> x < width wsize \<and> 0 \<le> y \<and> y < height wsize \<and> 0 \<le> z \<and> z < width wsize"

text \<open>
  A fully populated grid of the configured dimensions: the rows \<open>input[x][y]\<close> that exist
  are those of the chunk, and the cells that hold a block are those of the chunk.
\<close>

definition populated :: "WorldSize \<Rightarrow> chunkData \<Rightarrow> bool" where
  "populated wsize g \<longleftrightarrow>
     (\<forall>x y. hasRow g x y = (0 \<le> x \<and> x < width wsize \<and> 0 \<le> y \<and> y < height wsize))
     \<and> (\<forall>x y z. (cell g x y z \<noteq> None) = inChunk wsize x y z)"

text \<open>
  What the terrain stage leaves in a cell at height \<open>y\<close> that held \<open>old\<close>, in a column of
  surface height \<open>h\<close>: the branches of the loop body of \<open>generateTerrain\<close>.
\<close>

definition terrainBlock :: "int \<Rightarrow> real \<Rightarrow> real \<Rightarrow> int \<Rightarrow> BlockID option \<Rightarrow> BlockID option" where
  "terrainBlock h nSurface nBedrock y old =
     (if y < h then
        (if real_of_int y < nBedrock then Some Bedrock
         else if real_of_int y < real_of_int h - nSurface then
           (if old = Some Air then Some Stone else old)
         else Some Dirt)
      else if y = h then Some Grass
      else Some Air)"

text \<open>The body of the loop over \<open>x\<close> of \<open>generateTerrain\<close>, named for the proofs.\<close>

definition terrainPlane ::
  "SimplexNoise \<Rightarrow> WorldSize \<Rightarrow> WorldParams \<Rightarrow> Vector3 \<Rightarrow> int \<Rightarrow> chunkData \<Rightarrow> error + chunkData" where
  "terrainPlane simplex wsize params chunkPos x =
     forM [0..width wsize - 1] (\<lambda>z. terrainColumn simplex wsize params chunkPos x z)"

text \<open>
  What one resource pass leaves in a cell that held \<open>old\<close>, and the last resource of the
  configuration whose sample passes its threshold at a cell.
\<close>

definition oreBlock ::
  "SimplexNoise \<Rightarrow> OreConfig \<Rightarrow> Vector3 \<Rightarrow> int \<Rightarrow> int \<Rightarrow> int \<Rightarrow> BlockID option \<Rightarrow> BlockID option" where
  "oreBlock simplex config chunkPos x y z old =
     (if oreSample simplex config chunkPos x y z > config_scarcity config
      then Some (config_id config) else old)"

definition lastPassing ::
  "SimplexNoise \<Rightarrow> Vector3 \<Rightarrow> int \<Rightarrow> int \<Rightarrow> int \<Rightarrow> OreConfig list \<Rightarrow> OreConfig option" where
  "lastPassing simplex chunkPos x y z oreConfig =
     (case filter (\<lambda>config. oreSample simplex config chunkPos x y z > config_scarcity config)
             oreConfig of
        [] \<Rightarrow> None
      | cs \<Rightarrow> Some (last cs))"

text \<open>What a run of canopy steps may have done to the grid.\<close>

definition leafed :: "int \<Rightarrow> int \<Rightarrow> int \<Rightarrow> int \<Rightarrow> chunkData \<Rightarrow> chunkData \<Rightarrow> bool" where
  "leafed cx cy cz rad g g' \<longleftrightarrow>
     (\<forall>x y. hasRow g' x y = hasRow g x y)
     \<and> (\<forall>x y z. cell g' x y z \<noteq> cell g x y z \<longrightarrow>
           cell g x y z = Some Air \<and> cell g' x y z = Some Leaves
           \<and> (x - cx) * (x - cx) + (y - cy) * (y - cy) + (z - cz) * (z - cz) \<le> rad * rad)"

text \<open>What the tree stage may have done to the grid.\<close>

definition grown :: "chunkData \<Rightarrow> chunkData \<Rightarrow> bool" where
  "grown g g' \<longleftrightarrow>
     (\<forall>x y. hasRow g' x y = hasRow g x y)
     \<and> (\<forall>x y z. cell g' x y z \<noteq> cell g x y z \<longrightarrow>
           cell g' x y z = Some OakLog
           \<or> (cell g' x y z = Some Leaves \<and> cell g x y z = Some Air))"

text \<open>After the terrain stage no Grass lies above the surface height of its column.\<close>

definition grassBelow :: "(int \<Rightarrow> int \<Rightarrow> int) \<Rightarrow> chunkData \<Rightarrow> bool" where
  "grassBelow hf g \<longleftrightarrow> (\<forall>x y z. cell g x y z = Some Grass \<longrightarrow> y \<le> hf x z)"

text \<open>
  The invariant of the tree stage, and the room a tree needs: above the surface \<open>hf\<close> of
  every candidate column for the highest trunk and the widest canopy, and below the
  canopy for its lower half.
\<close>

definition treeReady :: "WorldSize \<Rightarrow> (int \<Rightarrow> int \<Rightarrow> int) \<Rightarrow> chunkData \<Rightarrow> bool" where
  "treeReady wsize hf g \<longleftrightarrow> populated wsize g \<and> grassBelow hf g"

definition treeFits :: "WorldSize \<Rightarrow> WorldParams \<Rightarrow> (int \<Rightarrow> int \<Rightarrow> int) \<Rightarrow> bool" where
  "treeFits wsize params hf \<longleftrightarrow>
     (\<forall>x\<in>set (candidates wsize params). \<forall>z\<in>set (candidates wsize params).
        hf x z + trees_trunkHeight_max params + trees_canopy_size_max params + 1 < height wsize)
     \<and> trees_canopy_size_max params \<le> trees_trunkHeight_min params + 1"

text \<open>The noise object that the terrain stage of \<open>generateChunk\<close> builds: the second one.\<close>

definition terrainSimplex :: "'r Random \<Rightarrow> WorldParams \<Rightarrow> SimplexNoise" where
  "terrainSimplex env params =
     fst (SimplexNoise_new env (snd (SimplexNoise_new env (RNG_new env (seed params)))))"

text \<open>
  Two generators give the same draws when some relation between their states holds of
  two fresh generators of one seed, is kept by every draw and by every construction of
  a noise object, and related states yield the same draw and the same noise functions.
\<close>

definition sameDraws :: "('a \<Rightarrow> 'b \<Rightarrow> bool) \<Rightarrow> 'a Random \<Rightarrow> 'b Random \<Rightarrow> bool" where
  "sameDraws R e1 e2 \<longleftrightarrow>
     (\<forall>s. R (RNG_new e1 s) (RNG_new e2 s))
     \<and> (\<forall>a b. R a b \<longrightarrow>
           fst (RNG_random e1 a) = fst (RNG_random e2 b)
           \<and> R (snd (RNG_random e1 a)) (snd (RNG_random e2 b)))
     \<and> (\<forall>a b. R a b \<longrightarrow>
           fst (SimplexNoise_new e1 a) = fst (SimplexNoise_new e2 b)
           \<and> R (snd (SimplexNoise_new e1 a)) (snd (SimplexNoise_new e2 b)))"

text \<open>Two states of a stage, or two of its results, that differ in the generator only.\<close>

definition sameGrid :: "('a \<Rightarrow> 'b \<Rightarrow> bool) \<Rightarrow> 'a \<times> chunkData \<Rightarrow> 'b \<times> chunkData \<Rightarrow> bool" where
  "sameGrid R t1 t2 \<longleftrightarrow> R (fst t1) (fst t2) \<and> snd t1 = snd t2"

definition sameOutcome ::
  "('a \<Rightarrow> 'b \<Rightarrow> bool) \<Rightarrow> error + 'a \<times> chunkData \<Rightarrow> error + 'b \<times> chunkData \<Rightarrow> bool" where
  "sameOutcome R res1 res2 =
     (case res1 of
        Inl e1 \<Rightarrow> (case res2 of Inl e2 \<Rightarrow> e1 = e2 | Inr t2 \<Rightarrow> False)
      | Inr t1 \<Rightarrow> (case res2 of Inl e2 \<Rightarrow> False | Inr t2 \<Rightarrow> sameGrid R t1 t2))"

text \<open>
  What a run of the tree stage has written stays within the width of the chunk: a cell
  that differs afterwards has its \<open>x\<close> and its \<open>z\<close> in \<open>[0, width)\<close>.
\<close>

definition widthKept :: "WorldSize \<Rightarrow> chunkData \<Rightarrow> chunkData \<Rightarrow> bool" where
  "widthKept wsize g g' \<longleftrightarrow>
     (\<forall>x y z. cell g' x y z \<noteq> cell g x y z \<longrightarrow>
        0 \<le> x \<and> x < width wsize \<and> 0 \<le> z \<and> z < width wsize)"

text \<open>
  The range of the 2D noise black box. The spec gives \<open>[-1, 1]\<close>; the noise that the
  code calls, of three's \<open>SimplexNoise\<close> (not among the sources), is
  \<open>70 * (n0 + n1 + n2)\<close> with \<open>ni = ti^4 * (gi . (xi, yi))\<close> and \<open>ti = 0.5 - xi^2 - yi^2\<close>,
  which stays below \<open>0.998\<close> for every permutation table. With that margin
  \<open>n = noise * 0.5 + 0.5\<close> is at most \<open>0.999\<close>, in doubles as in the reals, so the bound
  is stated with the margin and not as \<open>noise < 1\<close>.
\<close>

definition simplexBounded :: "'r Random \<Rightarrow> bool" where
  "simplexBounded env \<longleftrightarrow>
     (\<forall>s x y. noise (fst (SimplexNoise_new env s)) x y \<le> 998 / 1000)"

text \<open>A block that the tree stage does not place.\<close>

definition noTreeBlock :: "BlockID option \<Rightarrow> bool" where
  "noTreeBlock b \<longleftrightarrow> b \<noteq> Some OakLog \<and> b \<noteq> Some Leaves"

text \<open>What the caller of \<open>generateChunkIn\<close> receives: the grid or the error.\<close>

definition outcome :: "error + chunkData \<times> 'r Store \<Rightarrow> error + chunkData" where
  "outcome res = (case res of Inl e \<Rightarrow> Inl e | Inr (data, store) \<Rightarrow> Inr data)"

text \<open>A reference and a generator state agree when the object at the reference is in that state.\<close>

definition pointsTo :: "'r Store \<times> nat \<Rightarrow> 'r \<Rightarrow> bool" where
  "pointsTo p s \<longleftrightarrow> rngAt (fst p) (snd p) = s"

section \<open>Example inputs\<close>

text \<open>
  Example black boxes: a noise field that is constant, and a generator whose every draw
  is \<open>r\<close> (its state counts the draws; a noise object takes 256 of them).
\<close>

definition flatNoise :: "real \<Rightarrow> SimplexNoise" where
  "flatNoise c = \<lparr>noise = (\<lambda>_ _. c), noise3d = (\<lambda>_ _ _. c)\<rparr>"

definition flatRandom :: "real \<Rightarrow> real \<Rightarrow> nat Random" where
  "flatRandom c r =
     \<lparr>RNG_new = (\<lambda>_. 0), RNG_random = (\<lambda>n. (r, Suc n)),
      SimplexNoise_new = (\<lambda>n. (flatNoise c, n + 256))\<rparr>"

text \<open>
  Example parameters: a flat surface at half the world's height, one layer of bedrock,
  one of dirt, a tree on every candidate column with a trunk of one block and no canopy.
\<close>

definition exampleParams :: WorldParams where
  "exampleParams =
     \<lparr>seed = 0, terrain_scale = 30, terrain_offset = 1/2, terrain_magnitude = 0,
      surface_offset = 1, surface_magnitude = 0, bedrock_offset = 1, bedrock_magnitude = 0,
      trees_frequency = 1, trees_trunkHeight_min = 1, trees_trunkHeight_max = 1,
      trees_canopy_density = 1, trees_canopy_size_min = 0, trees_canopy_size_max = 0\<rparr>"

definition exampleSize :: WorldSize where
  "exampleSize = \<lparr>width = 1, height = 6\<rparr>"

definition origin :: Vector3 where
  "origin = \<lparr>vec_x = 0, vec_y = 0, vec_z = 0\<rparr>"

text \<open>One resource that passes its threshold wherever the noise is above \<open>-1\<close>.\<close>

definition exampleOre :: OreConfig where
  "exampleOre =
     \<lparr>config_id = Ore 0, config_scale_x = 20, config_scale_y = 20, config_scale_z = 20,
      config_scarcity = -1\<rparr>"

text \<open>Two resources that both pass everywhere; the second one wins.\<close>

definition exampleOres :: "OreConfig list" where
  "exampleOres = [exampleOre, exampleOre\<lparr>config_id := Ore 1\<rparr>]"

text \<open>
  Variations of the example: a thicker bedrock, canopies of radius 1 that take every leaf,
  a wider canopy, no trees, and further world sizes (the last one too low for the tree).
\<close>

definition thickBedrock :: WorldParams where
  "thickBedrock = exampleParams\<lparr>bedrock_offset := 4\<rparr>"

definition leafyParams :: WorldParams where
  "leafyParams = exampleParams\<lparr>trees_canopy_density := 0, trees_canopy_size_min := 1,
     trees_canopy_size_max := 1\<rparr>"

definition wideCanopy :: WorldParams where
  "wideCanopy = exampleParams\<lparr>trees_canopy_size_min := 1, trees_canopy_size_max := 2\<rparr>"

definition noTrees :: WorldParams where
  "noTrees = exampleParams\<lparr>trees_frequency := 0\<rparr>"

definition cubeSize :: WorldSize where
  "cubeSize = \<lparr>width = 3, height = 3\<rparr>"

definition wideSize :: WorldSize where
  "wideSize = \<lparr>width = 5, height = 6\<rparr>"

definition lowSize :: WorldSize where
  "lowSize = \<lparr>width = 1, height = 4\<rparr>"

text \<open>
  The grids of the example, one column of six cells: the terrain on an empty grid, the
  resources, the terrain on the resources, the tree on the first, the whole chunk; and
  a column with two Grass cells.
\<close>

definition exampleTerrain :: chunkData where
  "exampleTerrain =
     [0 \<mapsto> [0 \<mapsto> [0 \<mapsto> Bedrock], 1 \<mapsto> [0 \<mapsto> Stone], 2 \<mapsto> [0 \<mapsto> Dirt],
           3 \<mapsto> [0 \<mapsto> Grass], 4 \<mapsto> [0 \<mapsto> Air], 5 \<mapsto> [0 \<mapsto> Air]]]"

definition exampleResources :: chunkData where
  "exampleResources =
     [0 \<mapsto> [0 \<mapsto> [0 \<mapsto> Ore 1], 1 \<mapsto> [0 \<mapsto> Ore 1], 2 \<mapsto> [0 \<mapsto> Ore 1],
           3 \<mapsto> [0 \<mapsto> Ore 1], 4 \<mapsto> [0 \<mapsto> Ore 1], 5 \<mapsto> [0 \<mapsto> Ore 1]]]"

definition exampleOreTerrain :: chunkData where
  "exampleOreTerrain =
     [0 \<mapsto> [0 \<mapsto> [0 \<mapsto> Bedrock], 1 \<mapsto> [0 \<mapsto> Ore 1], 2 \<mapsto> [0 \<mapsto> Dirt],
           3 \<mapsto> [0 \<mapsto> Grass], 4 \<mapsto> [0 \<mapsto> Air], 5 \<mapsto> [0 \<mapsto> Air]]]"

definition exampleTree :: chunkData where
  "exampleTree =
     [0 \<mapsto> [0 \<mapsto> [0 \<mapsto> Bedrock], 1 \<mapsto> [0 \<mapsto> Stone], 2 \<mapsto> [0 \<mapsto> Dirt],
           3 \<mapsto> [0 \<mapsto> Grass], 4 \<mapsto> [0 \<mapsto> OakLog], 5 \<mapsto> [0 \<mapsto> Air]]]"

definition exampleChunk :: chunkData where
  "exampleChunk =
     [0 \<mapsto> [0 \<mapsto> [0 \<mapsto> Bedrock], 1 \<mapsto> [0 \<mapsto> Ore 1], 2 \<mapsto> [0 \<mapsto> Dirt],
           3 \<mapsto> [0 \<mapsto> Grass], 4 \<mapsto> [0 \<mapsto> OakLog], 5 \<mapsto> [0 \<mapsto> Air]]]"

definition twoGrass :: chunkData where
  "twoGrass =
     [0 \<mapsto> [0 \<mapsto> [0 \<mapsto> Grass], 1 \<mapsto> [0 \<mapsto> Air], 2 \<mapsto> [0 \<mapsto> Grass],
           3 \<mapsto> [0 \<mapsto> Air], 4 \<mapsto> [0 \<mapsto> Air], 5 \<mapsto> [0 \<mapsto> Air]]]"

text \<open>
  A grid of the example five cells wide, all Air but for Grass at \<open>(2, 0, 2)\<close>, and
  parameters with which the tree on it has a canopy of radius 2 that takes every leaf.
\<close>

definition wideGrass :: chunkData where
  "wideGrass =
     (\<lambda>x. if 0 \<le> x \<and> x < 5
          then Some (\<lambda>y. if 0 \<le> y \<and> y < 6
                          then Some (\<lambda>z. if 0 \<le> z \<and> z < 5
                                          then Some (if x = 2 \<and> y = 0 \<and> z = 2 then Grass else Air)
                                          else None)
                          else None)
          else None)"

definition wideLeafy :: WorldParams where
  "wideLeafy = wideCanopy\<lparr>trees_canopy_density := 0\<rparr>"

text \<open>The store of a worker that has made no call.\<close>

definition emptyStore :: "nat Store" where
  "emptyStore = \<lparr>rngAt = (\<lambda>_. 0), fresh = 0\<rparr>"

section \<open>Basic facts\<close>

subsection \<open>Array access and loops\<close>

lemma getBlock_cell: "getBlock g x y z = (if hasRow g x y then Inr (cell g x y z) else Inl TypeError)"
  by (simp add: getBlock_def hasRow_def cell_def split: option.splits)

lemma setBlock_Inr_iff: "(\<exists>g'. setBlock g x y z v = Inr g') = hasRow g x y"
  by (auto simp add: setBlock_def hasRow_def split: option.splits)

lemma setBlock_hasRow: "setBlock g x y z v = Inr g' \<Longrightarrow> hasRow g' x' y' = hasRow g x' y'"
  by (cases "g x"; cases "x' = x"; cases "y' = y")
     (auto simp add: setBlock_def hasRow_def split: option.splits)

lemma setBlock_cell: "setBlock g x y z v = Inr g' \<Longrightarrow>
   cell g' x' y' z' = (if x' = x \<and> y' = y \<and> z' = z then Some v else cell g x' y' z')"
  by (cases "g x"; cases "x' = x"; cases "y' = y")
     (auto simp add: setBlock_def cell_def split: option.splits)

lemma forM_append: "forM (xs @ ys) f s = (case forM xs f s of Inl e \<Rightarrow> Inl e | Inr s' \<Rightarrow> forM ys f s')"
  by (induction xs arbitrary: s) (auto split: sum.splits)

lemma forM_invariant:
  assumes "forM xs f s = Inr s'" and "P s"
    and "\<And>a t t'. a \<in> set xs \<Longrightarrow> P t \<Longrightarrow> f a t = Inr t' \<Longrightarrow> P t'"
  shows "P s'"
  using assms
proof (induction xs arbitrary: s)
  case Nil then show ?case by simp
next
  case (Cons a xs)
  from Cons.prems(1) obtain t where t: "f a s = Inr t" and r: "forM xs f t = Inr s'"
    by (auto split: sum.splits)
  have "P t" using Cons.prems(2,3) t by auto
  then show ?case using Cons.IH[OF r] Cons.prems(3) by auto
qed

lemma forM_total:
  assumes "P s"
    and "\<And>a t. a \<in> set xs \<Longrightarrow> P t \<Longrightarrow> \<exists>t'. f a t = Inr t' \<and> P t'"
  shows "\<exists>s'. forM xs f s = Inr s' \<and> P s'"
  using assms
proof (induction xs arbitrary: s)
  case Nil then show ?case by simp
next
  case (Cons a xs)
  from Cons.prems obtain t where t: "f a s = Inr t" "P t" by fastforce
  from Cons.IH[OF t(2)] Cons.prems(2) obtain s' where "forM xs f t = Inr s'" "P s'" by auto
  then show ?case using t by auto
qed

lemma forM_skip: "(\<And>a s. a \<in> set xs \<Longrightarrow> f a s = Inr s) \<Longrightarrow> forM xs f s = Inr s"
  by (induction xs) auto

lemma forM_pure: "forM xs (\<lambda>a s. Inr (f a s)) s = Inr (fold f xs s)"
  by (induction xs arbitrary: s) auto

text \<open>
  A loop whose iterations each rewrite the observation \<open>obs\<close> at most at their own
  place: the whole loop rewrites it once where some iteration does.
\<close>

lemma forM_pointwise:
  assumes "forM xs f s = Inr s'" and "distinct xs"
    and step: "\<And>a t t'. a \<in> set xs \<Longrightarrow> f a t = Inr t' \<Longrightarrow> obs t' = (if R a then F (obs t) else obs t)"
    and uniq: "\<And>a b. a \<in> set xs \<Longrightarrow> b \<in> set xs \<Longrightarrow> R a \<Longrightarrow> R b \<Longrightarrow> a = b"
  shows "obs s' = (if \<exists>a\<in>set xs. R a then F (obs s) else obs s)"
  using assms
proof (induction xs arbitrary: s)
  case Nil then show ?case by simp
next
  case (Cons a xs)
  from Cons.prems(1) obtain t where t: "f a s = Inr t" and r: "forM xs f t = Inr s'"
    by (auto split: sum.splits)
  have d: "distinct xs" "a \<notin> set xs" using Cons.prems(2) by auto
  have ih: "obs s' = (if \<exists>a\<in>set xs. R a then F (obs t) else obs t)"
    by (rule Cons.IH[OF r d(1)]) (use Cons.prems(3,4) in auto)
  have st: "obs t = (if R a then F (obs s) else obs s)"
    using Cons.prems(3)[of a s t] t by simp
  show ?case
  proof (cases "R a")
    case True
    then have "\<not> (\<exists>b\<in>set xs. R b)" using Cons.prems(4)[of a] d(2) by auto
    then show ?thesis using ih st True by simp
  next
    case False
    then show ?thesis using ih st by simp
  qed
qed

subsection \<open>The empty grid\<close>

lemma fold_map_upd:
  "fold (\<lambda>k m. m(k \<mapsto> v)) xs m = (\<lambda>k. if k \<in> set xs then Some v else m k)"
  by (induction xs arbitrary: m) (auto simp: fun_eq_iff)

lemma initRow_eq:
  "0 \<le> width chunkSize \<Longrightarrow> width chunkSize < 4294967296 \<Longrightarrow>
     initRow chunkSize = Inr (\<lambda>z. if 0 \<le> z \<and> z < width chunkSize then Some Air else None)"
  by (auto simp: initRow_def newArray_def forM_pure fold_map_upd fun_eq_iff)

lemma initPlane_eq:
  assumes "0 \<le> width chunkSize" "width chunkSize < 4294967296"
    "0 \<le> height chunkSize" "height chunkSize < 4294967296"
  shows "initPlane chunkSize = Inr (\<lambda>y. if 0 \<le> y \<and> y < height chunkSize
                          then Some (\<lambda>z. if 0 \<le> z \<and> z < width chunkSize then Some Air else None)
                          else None)"
  using assms
  by (auto simp: initPlane_def newArray_def initRow_eq forM_pure fold_map_upd fun_eq_iff)

lemma initEmptyChunk_eq:
  assumes "0 < width chunkSize" "width chunkSize < 4294967296"
    "0 \<le> height chunkSize" "height chunkSize < 4294967296"
  shows "initEmptyChunk chunkSize = Inr (emptyChunk chunkSize)"
  using assms
  by (auto simp: initEmptyChunk_def newArray_def initPlane_eq forM_pure fold_map_upd fun_eq_iff emptyChunk_def)

lemma cell_emptyChunk:
  "cell (emptyChunk chunkSize) x y z =
     (if 0 \<le> x \<and> x < width chunkSize \<and> 0 \<le> y \<and> y < height chunkSize \<and> 0 \<le> z \<and> z < width chunkSize
      then Some Air else None)"
  by (simp add: cell_def emptyChunk_def)

lemma hasRow_emptyChunk:
  "hasRow (emptyChunk chunkSize) x y =
     (0 \<le> x \<and> x < width chunkSize \<and> 0 \<le> y \<and> y < height chunkSize)"
  by (auto simp add: hasRow_def emptyChunk_def)

lemma populated_emptyChunk: "populated chunkSize (emptyChunk chunkSize)"
  by (simp add: populated_def cell_emptyChunk hasRow_emptyChunk inChunk_def)

lemma populated_hasRow:
  "populated wsize g \<Longrightarrow> hasRow g x y = (0 \<le> x \<and> x < width wsize \<and> 0 \<le> y \<and> y < height wsize)"
  by (simp add: populated_def)

lemma populated_cell: "populated wsize g \<Longrightarrow> (cell g x y z \<noteq> None) = inChunk wsize x y z"
  by (simp add: populated_def)

lemma setBlock_populated:
  assumes "populated wsize g" "inChunk wsize x y z"
  shows "\<exists>g'. setBlock g x y z v = Inr g' \<and> populated wsize g'"
proof -
  have "hasRow g x y" using assms by (simp add: populated_hasRow inChunk_def)
  then obtain g' where s: "setBlock g x y z v = Inr g'"
    using setBlock_Inr_iff[of g x y z v] by blast
  have "populated wsize g'"
    using assms by (auto simp: populated_def setBlock_hasRow[OF s] setBlock_cell[OF s])
  with s show ?thesis by blast
qed

subsection \<open>The draw of a size\<close>

lemma drawSize_range:
  assumes "0 \<le> r" "r \<le> 1" "lo \<le> hi"
  shows "lo \<le> drawSize r lo hi \<and> drawSize r lo hi \<le> hi"
proof -
  define d where "d = real_of_int (hi - lo)"
  have d: "0 \<le> d" using assms(3) by (simp add: d_def)
  have rd: "round d = hi - lo" unfolding d_def by (rule round_of_int)
  have "0 \<le> r * d" using assms(1) d by simp
  from round_mono[OF this] have a: "0 \<le> round (r * d)" by simp
  have "r * d \<le> d" using mult_right_mono[OF assms(2) d] by simp
  from round_mono[OF this] have b: "round (r * d) \<le> hi - lo" by (simp add: rd)
  from a b show ?thesis by (simp add: drawSize_def d_def)
qed

subsection \<open>Runs of the example\<close>

lemma example_simplex: "fst (SimplexNoise_new (flatRandom c r) n) = flatNoise c"
  by (simp add: flatRandom_def)

lemma example_columnHeight:
  "columnHeight (flatNoise 0) exampleSize exampleParams origin 0 0 = 3"
  by (simp add: columnHeight_def flatNoise_def exampleParams_def exampleSize_def origin_def)

lemma example_numBedrockBlocks: "numBedrockBlocks (flatNoise 0) exampleParams 0 0 = 1"
  by (simp add: numBedrockBlocks_def flatNoise_def exampleParams_def)

lemma example_terrain_run:
  "generateTerrain (flatRandom 0 0) 0 (emptyChunk exampleSize) exampleSize exampleParams origin
     = Inr (256, exampleTerrain)"
  by (simp add: generateTerrain_def flatRandom_def terrainColumn_def upto.simps terrainCell_def
      columnHeight_def numSurfaceBlocks_def numBedrockBlocks_def flatNoise_def exampleParams_def
      exampleSize_def origin_def getBlock_def setBlock_def emptyChunk_def exampleTerrain_def
      fun_eq_iff)

lemma example_resources_run:
  "generateResources (flatRandom 0 0) exampleOres 0 (emptyChunk exampleSize) exampleSize origin
     = Inr (256, exampleResources)"
  by (simp add: generateResources_def flatRandom_def orePass_def upto.simps oreCell_def
      oreSample_def flatNoise_def exampleOres_def exampleOre_def exampleResources_def
      exampleSize_def origin_def setBlock_def emptyChunk_def fun_eq_iff)

lemma example_ore_terrain_run:
  "generateTerrain (flatRandom 0 0) 256 exampleResources exampleSize exampleParams origin
     = Inr (512, exampleOreTerrain)"
  by (simp add: generateTerrain_def flatRandom_def terrainColumn_def upto.simps terrainCell_def
      columnHeight_def numSurfaceBlocks_def numBedrockBlocks_def flatNoise_def exampleParams_def
      exampleSize_def origin_def getBlock_def setBlock_def exampleResources_def
      exampleOreTerrain_def fun_eq_iff)

lemma exampleTerrain_grass: "cell exampleTerrain 0 y 0 = Some Grass \<longleftrightarrow> y = 3"
  by (simp add: cell_def exampleTerrain_def)

lemma upto_m11: "[-1..1] = [-1, 0, 1::int]"
  by (simp add: upto.simps)

lemma example_treeColumn_run:
  "treeColumn (flatRandom 0 0) (flatNoise 0) exampleSize exampleParams origin 0 0 (0, exampleTerrain)
     = Inr (3, exampleTree)"
  by (simp add: treeColumn_def treeNoise_def scanCell_def growTree_def generateCanopy_def
      leafCell_def drawSize_def upto.simps flatRandom_def flatNoise_def exampleParams_def
      exampleSize_def origin_def getBlock_def setBlock_def exampleTerrain_def exampleTree_def
      fun_eq_iff)

lemma example_growTree_run:
  "growTree (flatRandom 0 0) exampleParams 0 0 3 (0, exampleTerrain) = Inr (3, exampleTree)"
  by (simp add: growTree_def generateCanopy_def
      leafCell_def drawSize_def upto.simps flatRandom_def exampleParams_def
      getBlock_def setBlock_def exampleTerrain_def exampleTree_def fun_eq_iff)

lemma example_chunk_run:
  "generateChunk (flatRandom 0 0) exampleOres exampleSize exampleParams 0 0 = Inr exampleChunk"
proof -
  have o: "\<lparr>vec_x = 0, vec_y = 0, vec_z = 0\<rparr> = origin" by (simp add: origin_def)
  have i: "initEmptyChunk exampleSize = Inr (emptyChunk exampleSize)"
    by (rule initEmptyChunk_eq) (simp_all add: exampleSize_def)
  have n: "RNG_new (flatRandom 0 0) (seed exampleParams) = 0" by (simp add: flatRandom_def)
  have t: "generateTrees (flatRandom 0 0) 512 exampleOreTerrain exampleSize exampleParams origin
      = Inr (771, exampleChunk)"
    by (simp add: generateTrees_def candidates_def treeColumn_def treeNoise_def scanCell_def
      growTree_def generateCanopy_def
      leafCell_def drawSize_def upto.simps flatRandom_def flatNoise_def exampleParams_def
      exampleSize_def origin_def getBlock_def setBlock_def exampleOreTerrain_def exampleChunk_def
      fun_eq_iff)
  show ?thesis
    by (simp add: generateChunk_def Let_def o i n example_resources_run example_ore_terrain_run t)
qed

section \<open>The resource stage\<close>

subsection \<open>The resource stage, cell by cell\<close>

lemma oreCell_cell:
  "oreCell sx c p x y z g = Inr g' \<Longrightarrow>
     cell g' x' y' z' =
       (if x' = x \<and> y' = y \<and> z' = z then oreBlock sx c p x y z (cell g x y z)
        else cell g x' y' z')"
  by (auto simp: oreCell_def oreBlock_def Let_def setBlock_cell split: if_splits)

lemma oreRow_cell:
  assumes "forM [0..w - 1] (\<lambda>z. oreCell sx c p x y z) g = Inr g'"
  shows "cell g' x' y' z' =
       (if x' = x \<and> y' = y \<and> 0 \<le> z' \<and> z' < w
        then oreBlock sx c p x' y' z' (cell g x' y' z') else cell g x' y' z')"
proof -
  have "cell g' x' y' z' =
     (if \<exists>a\<in>set [0..w - 1]. x' = x \<and> y' = y \<and> z' = a
      then oreBlock sx c p x' y' z' (cell g x' y' z') else cell g x' y' z')"
    by (rule forM_pointwise[OF assms, where obs = "\<lambda>g. cell g x' y' z'"])
       (auto simp: oreCell_cell)
  then show ?thesis by auto
qed

lemma orePlane_cell:
  assumes "forM [0..h - 1] (\<lambda>y. forM [0..w - 1] (\<lambda>z. oreCell sx c p x y z)) g = Inr g'"
  shows "cell g' x' y' z' =
       (if x' = x \<and> 0 \<le> y' \<and> y' < h \<and> 0 \<le> z' \<and> z' < w
        then oreBlock sx c p x' y' z' (cell g x' y' z') else cell g x' y' z')"
proof -
  have "cell g' x' y' z' =
     (if \<exists>a\<in>set [0..h - 1]. x' = x \<and> y' = a \<and> 0 \<le> z' \<and> z' < w
      then oreBlock sx c p x' y' z' (cell g x' y' z') else cell g x' y' z')"
    by (rule forM_pointwise[OF assms, where obs = "\<lambda>g. cell g x' y' z'"])
       (auto simp: oreRow_cell)
  then show ?thesis by auto
qed

lemma orePass_cell:
  assumes "orePass sx wsize p c g = Inr g'"
  shows "cell g' x' y' z' =
       (if inChunk wsize x' y' z'
        then oreBlock sx c p x' y' z' (cell g x' y' z') else cell g x' y' z')"
proof -
  have "cell g' x' y' z' =
     (if \<exists>a\<in>set [0..width wsize - 1]. x' = a \<and> 0 \<le> y' \<and> y' < height wsize
            \<and> 0 \<le> z' \<and> z' < width wsize
      then oreBlock sx c p x' y' z' (cell g x' y' z') else cell g x' y' z')"
    by (rule forM_pointwise[OF assms[unfolded orePass_def], where obs = "\<lambda>g. cell g x' y' z'"])
       (auto simp: orePlane_cell)
  then show ?thesis by (auto simp: inChunk_def)
qed

lemma orePasses_cell:
  "forM cs (orePass sx wsize p) g = Inr g' \<Longrightarrow>
     cell g' x y z =
       (if inChunk wsize x y z
        then fold (\<lambda>c old. oreBlock sx c p x y z old) cs (cell g x y z) else cell g x y z)"
proof (induction cs arbitrary: g)
  case Nil
  then show ?case by simp
next
  case (Cons c cs)
  from Cons.prems obtain t where t: "orePass sx wsize p c g = Inr t"
    and r: "forM cs (orePass sx wsize p) t = Inr g'"
    by (auto split: sum.splits)
  show ?case
    using Cons.IH[OF r] orePass_cell[OF t, of x y z] by simp
qed

lemma fold_oreBlock:
  "fold (\<lambda>c old. oreBlock sx c p x y z old) cs old =
     (case lastPassing sx p x y z cs of None \<Rightarrow> old | Some c \<Rightarrow> Some (config_id c))"
proof (induction cs rule: rev_induct)
  case Nil
  then show ?case by (simp add: lastPassing_def)
next
  case (snoc c cs)
  then show ?case
    by (auto simp: lastPassing_def oreBlock_def split: list.splits)
qed

lemma generateResources_Inr:
  "generateResources env oreConfig rng input wsize chunkPos = Inr (rng', out) \<longleftrightarrow>
     rng' = snd (SimplexNoise_new env rng)
     \<and> forM oreConfig (orePass (fst (SimplexNoise_new env rng)) wsize chunkPos) input = Inr out"
  by (cases "SimplexNoise_new env rng")
     (auto simp add: generateResources_def split: sum.splits)

subsection \<open>The resource stage stays inside the chunk\<close>

lemma oreCell_populated:
  "populated wsize g \<Longrightarrow> inChunk wsize x y z \<Longrightarrow>
     \<exists>g'. oreCell sx c p x y z g = Inr g' \<and> populated wsize g'"
  by (simp add: oreCell_def Let_def setBlock_populated)

lemma orePass_populated:
  assumes "populated wsize g"
  shows "\<exists>g'. orePass sx wsize p c g = Inr g' \<and> populated wsize g'"
  unfolding orePass_def
  by (intro forM_total[where P = "populated wsize"] assms oreCell_populated)
     (auto simp: inChunk_def)

lemma generateResources_populated:
  assumes "populated wsize g"
  shows "\<exists>rng' g'. generateResources env oreConfig rng g wsize p = Inr (rng', g')
           \<and> populated wsize g'"
proof -
  have "\<exists>g'. forM oreConfig (orePass (fst (SimplexNoise_new env rng)) wsize p) g = Inr g'
           \<and> populated wsize g'"
    by (intro forM_total[where P = "populated wsize"] assms orePass_populated)
  then show ?thesis by (auto simp: generateResources_Inr)
qed

subsection \<open>The last resource that passes\<close>

text \<open>
  Claim C8. After \<open>generateResources\<close> has run, every cell of the chunk holds the block
  identifier of the last resource, in the order of the configuration, whose noise sample
  at the cell (\<open>oreSample\<close>) strictly exceeds its scarcity threshold; a cell where no
  resource passes keeps its input value.
\<close>

theorem resources_last_passing:
  assumes run: "generateResources env oreConfig rng g wsize chunkPos = Inr (rng', out)"
    and c: "0 \<le> x" "x < width wsize" "0 \<le> y" "y < height wsize" "0 \<le> z" "z < width wsize"
  shows "cell out x y z =
     (case lastPassing (fst (SimplexNoise_new env rng)) chunkPos x y z oreConfig of
        None \<Rightarrow> cell g x y z
      | Some config \<Rightarrow> Some (config_id config))"
proof -
  from run have "forM oreConfig (orePass (fst (SimplexNoise_new env rng)) wsize chunkPos) g = Inr out"
    by (simp add: generateResources_Inr)
  from orePasses_cell[OF this, of x y z] c show ?thesis
    by (simp add: inChunk_def fold_oreBlock)
qed

theorem resources_last_passing_witness:
  "generateResources (flatRandom 0 0) exampleOres 0 (emptyChunk exampleSize) exampleSize origin
     = Inr (256, exampleResources)
   \<and> 0 < width exampleSize \<and> 0 < height exampleSize
   \<and> lastPassing (fst (SimplexNoise_new (flatRandom 0 0) 0)) origin 0 0 0 exampleOres
       = Some (exampleOre\<lparr>config_id := Ore 1\<rparr>)
   \<and> cell exampleResources 0 0 0 = Some (Ore 1)"
proof -
  have s: "(0::int) \<le> 0" "0 < width exampleSize" "0 < height exampleSize"
    by (simp_all add: exampleSize_def)
  have l: "lastPassing (fst (SimplexNoise_new (flatRandom 0 0) 0)) origin 0 0 0 exampleOres
       = Some (exampleOre\<lparr>config_id := Ore 1\<rparr>)"
    by (simp add: lastPassing_def example_simplex oreSample_def flatNoise_def exampleOres_def
        exampleOre_def)
  show ?thesis
    using resources_last_passing[OF example_resources_run s(1) s(2) s(1) s(3) s(1) s(2)]
      example_resources_run s l by simp
qed

section \<open>The terrain stage\<close>

subsection \<open>The terrain stage, cell by cell\<close>

lemma terrainCell_cell:
  "terrainCell h ns nb x z y g = Inr g' \<Longrightarrow>
     cell g' x' y' z' =
       (if x' = x \<and> y' = y \<and> z' = z then terrainBlock h ns nb y (cell g x y z)
        else cell g x' y' z')"
  by (auto simp: terrainCell_def terrainBlock_def getBlock_cell setBlock_cell split: if_splits)

lemma terrainColumn_cell:
  assumes "terrainColumn simplex wsize params chunkPos x z g = Inr g'"
  shows "cell g' x' y' z' =
       (if x' = x \<and> z' = z \<and> 0 \<le> y' \<and> y' < height wsize
        then terrainBlock (columnHeight simplex wsize params chunkPos x' z')
               (numSurfaceBlocks simplex params x' z') (numBedrockBlocks simplex params x' z')
               y' (cell g x' y' z')
        else cell g x' y' z')"
proof -
  have "cell g' x' y' z' =
     (if \<exists>a\<in>set [0..height wsize - 1]. x' = x \<and> z' = z \<and> y' = a
      then terrainBlock (columnHeight simplex wsize params chunkPos x' z')
               (numSurfaceBlocks simplex params x' z') (numBedrockBlocks simplex params x' z')
               y' (cell g x' y' z')
      else cell g x' y' z')"
    by (rule forM_pointwise[OF assms[unfolded terrainColumn_def],
          where obs = "\<lambda>g. cell g x' y' z'"])
       (auto simp: terrainCell_cell)
  then show ?thesis by auto
qed

lemma terrainPlane_cell:
  assumes "terrainPlane simplex wsize params chunkPos x g = Inr g'"
  shows "cell g' x' y' z' =
       (if x' = x \<and> 0 \<le> z' \<and> z' < width wsize \<and> 0 \<le> y' \<and> y' < height wsize
        then terrainBlock (columnHeight simplex wsize params chunkPos x' z')
               (numSurfaceBlocks simplex params x' z') (numBedrockBlocks simplex params x' z')
               y' (cell g x' y' z')
        else cell g x' y' z')"
proof -
  have "cell g' x' y' z' =
     (if \<exists>a\<in>set [0..width wsize - 1]. x' = x \<and> z' = a \<and> 0 \<le> y' \<and> y' < height wsize
      then terrainBlock (columnHeight simplex wsize params chunkPos x' z')
               (numSurfaceBlocks simplex params x' z') (numBedrockBlocks simplex params x' z')
               y' (cell g x' y' z')
      else cell g x' y' z')"
    by (rule forM_pointwise[OF assms[unfolded terrainPlane_def],
          where obs = "\<lambda>g. cell g x' y' z'"])
       (auto simp: terrainColumn_cell)
  then show ?thesis by auto
qed

lemma generateTerrain_Inr:
  "generateTerrain env rng input wsize params chunkPos = Inr (rng', out) \<longleftrightarrow>
     rng' = snd (SimplexNoise_new env rng)
     \<and> forM [0..width wsize - 1]
          (terrainPlane (fst (SimplexNoise_new env rng)) wsize params chunkPos) input = Inr out"
  by (cases "SimplexNoise_new env rng")
     (auto simp add: generateTerrain_def terrainPlane_def[abs_def] split: sum.splits)

lemma generateTerrain_cell:
  assumes "generateTerrain env rng g wsize params chunkPos = Inr (rng', g')"
  shows "cell g' x' y' z' =
       (if 0 \<le> x' \<and> x' < width wsize \<and> 0 \<le> z' \<and> z' < width wsize
           \<and> 0 \<le> y' \<and> y' < height wsize
        then terrainBlock (columnHeight (fst (SimplexNoise_new env rng)) wsize params chunkPos x' z')
               (numSurfaceBlocks (fst (SimplexNoise_new env rng)) params x' z')
               (numBedrockBlocks (fst (SimplexNoise_new env rng)) params x' z')
               y' (cell g x' y' z')
        else cell g x' y' z')"
proof -
  let ?sx = "fst (SimplexNoise_new env rng)"
  from assms have run: "forM [0..width wsize - 1] (terrainPlane ?sx wsize params chunkPos) g = Inr g'"
    by (simp add: generateTerrain_Inr)
  have "cell g' x' y' z' =
     (if \<exists>a\<in>set [0..width wsize - 1]. x' = a \<and> 0 \<le> z' \<and> z' < width wsize
            \<and> 0 \<le> y' \<and> y' < height wsize
      then terrainBlock (columnHeight ?sx wsize params chunkPos x' z')
               (numSurfaceBlocks ?sx params x' z') (numBedrockBlocks ?sx params x' z')
               y' (cell g x' y' z')
      else cell g x' y' z')"
    by (rule forM_pointwise[OF run, where obs = "\<lambda>g. cell g x' y' z'"])
       (auto simp: terrainPlane_cell)
  then show ?thesis by auto
qed

lemma columnHeight_range:
  "0 < height wsize \<Longrightarrow>
     0 \<le> columnHeight simplex wsize params chunkPos x z
     \<and> columnHeight simplex wsize params chunkPos x z < height wsize"
  by (simp add: columnHeight_def Let_def)

lemma terrainBlock_below: "y \<le> h \<Longrightarrow> terrainBlock h ns nb y old \<noteq> Some Air"
  by (simp add: terrainBlock_def)

lemma terrainBlock_above: "h < y \<Longrightarrow> terrainBlock h ns nb y old = Some Air"
  by (simp add: terrainBlock_def)

lemma terrainBlock_at: "terrainBlock h ns nb h old = Some Grass"
  by (simp add: terrainBlock_def)

subsection \<open>The terrain stage stays inside the chunk\<close>

lemma terrainCell_populated:
  "populated wsize g \<Longrightarrow> inChunk wsize x y z \<Longrightarrow>
     \<exists>g'. terrainCell h ns nb x z y g = Inr g' \<and> populated wsize g'"
  by (auto simp: terrainCell_def getBlock_cell populated_hasRow setBlock_populated inChunk_def)

lemma terrainColumn_populated:
  assumes "populated wsize g" "0 \<le> x" "x < width wsize" "0 \<le> z" "z < width wsize"
  shows "\<exists>g'. terrainColumn sx wsize params p x z g = Inr g' \<and> populated wsize g'"
  unfolding terrainColumn_def
  by (intro forM_total[where P = "populated wsize"] assms(1) terrainCell_populated)
     (use assms in \<open>auto simp: inChunk_def\<close>)

lemma terrainPlane_populated:
  assumes "populated wsize g" "0 \<le> x" "x < width wsize"
  shows "\<exists>g'. terrainPlane sx wsize params p x g = Inr g' \<and> populated wsize g'"
  unfolding terrainPlane_def
  by (intro forM_total[where P = "populated wsize"] assms(1) terrainColumn_populated)
     (use assms in auto)

lemma generateTerrain_populated:
  assumes "populated wsize g"
  shows "\<exists>rng' g'. generateTerrain env rng g wsize params p = Inr (rng', g')
           \<and> populated wsize g'"
proof -
  have "\<exists>g'. forM [0..width wsize - 1]
          (terrainPlane (fst (SimplexNoise_new env rng)) wsize params p) g = Inr g'
           \<and> populated wsize g'"
    by (intro forM_total[where P = "populated wsize"] assms terrainPlane_populated) auto
  then show ?thesis by (auto simp: generateTerrain_Inr)
qed

lemma generateTerrain_grassBelow:
  assumes run: "generateTerrain env rng g wsize params p = Inr (rng', g')"
    and pop: "populated wsize g"
  shows "grassBelow (columnHeight (fst (SimplexNoise_new env rng)) wsize params p) g'"
  unfolding grassBelow_def
proof (intro allI impI)
  fix x y z
  assume gr: "cell g' x y z = Some Grass"
  show "y \<le> columnHeight (fst (SimplexNoise_new env rng)) wsize params p x z"
  proof (cases "inChunk wsize x y z")
    case True
    with generateTerrain_cell[OF run, of x y z] gr show ?thesis
      by (auto simp: inChunk_def terrainBlock_def split: if_splits)
  next
    case False
    with generateTerrain_cell[OF run, of x y z] populated_cell[OF pop, of x y z] gr
    show ?thesis by (auto simp: inChunk_def)
  qed
qed

subsection \<open>The profile of a column\<close>

text \<open>
  Claim C2. After \<open>generateTerrain\<close> has run, every column \<open>(x, z)\<close> of the chunk has
  exactly one index \<open>h\<close> in \<open>[0, height)\<close> such that no cell with \<open>y\<close> in \<open>[0, h]\<close> is
  Air, every cell with \<open>y\<close> in \<open>(h, height)\<close> is Air, and the cell at \<open>h\<close> is Grass.
  The input grid is arbitrary; the world's height is positive, as the world size requires.
\<close>

theorem terrain_column_profile:
  assumes run: "generateTerrain env rng g wsize params chunkPos = Inr (rng', out)"
    and H: "0 < height wsize"
    and x: "0 \<le> x" "x < width wsize" and z: "0 \<le> z" "z < width wsize"
  shows "\<exists>!h. 0 \<le> h \<and> h < height wsize
            \<and> (\<forall>y. 0 \<le> y \<and> y \<le> h \<longrightarrow> cell out x y z \<noteq> Some Air)
            \<and> (\<forall>y. h < y \<and> y < height wsize \<longrightarrow> cell out x y z = Some Air)
            \<and> cell out x h z = Some Grass"
proof -
  define sx where "sx = fst (SimplexNoise_new env rng)"
  define h0 where "h0 = columnHeight sx wsize params chunkPos x z"
  define ns where "ns = numSurfaceBlocks sx params x z"
  define nb where "nb = numBedrockBlocks sx params x z"
  have hr: "0 \<le> h0" "h0 < height wsize"
    using columnHeight_range[OF H, of sx params chunkPos x z] by (simp_all add: h0_def)
  have c: "cell out x y z = terrainBlock h0 ns nb y (cell g x y z)"
    if "0 \<le> y" "y < height wsize" for y
    using generateTerrain_cell[OF run, of x y z] x z that
    by (simp add: sx_def h0_def ns_def nb_def)
  have below: "cell out x y z \<noteq> Some Air" if "0 \<le> y" "y \<le> h0" for y
    using c[of y] that hr terrainBlock_below[of y h0] by simp
  have above: "cell out x y z = Some Air" if "h0 < y" "y < height wsize" for y
    using c[of y] that hr terrainBlock_above[of h0 y] by simp
  have at: "cell out x h0 z = Some Grass"
    using c[of h0] hr terrainBlock_at by simp
  show ?thesis
  proof (rule ex1I[of _ h0])
    show "0 \<le> h0 \<and> h0 < height wsize
            \<and> (\<forall>y. 0 \<le> y \<and> y \<le> h0 \<longrightarrow> cell out x y z \<noteq> Some Air)
            \<and> (\<forall>y. h0 < y \<and> y < height wsize \<longrightarrow> cell out x y z = Some Air)
            \<and> cell out x h0 z = Some Grass"
      using hr below above at by blast
  next
    fix h
    assume q: "0 \<le> h \<and> h < height wsize
            \<and> (\<forall>y. 0 \<le> y \<and> y \<le> h \<longrightarrow> cell out x y z \<noteq> Some Air)
            \<and> (\<forall>y. h < y \<and> y < height wsize \<longrightarrow> cell out x y z = Some Air)
            \<and> cell out x h z = Some Grass"
    show "h = h0"
    proof (rule ccontr)
      assume ne: "h \<noteq> h0"
      show False
      proof (cases "h < h0")
        case True
        with q hr have "cell out x h0 z = Some Air" by blast
        with at show False by simp
      next
        case False
        with ne have "h0 < h" by simp
        with q above[of h] show False by simp
      qed
    qed
  qed
qed

theorem terrain_column_profile_witness:
  "generateTerrain (flatRandom 0 0) 0 (emptyChunk exampleSize) exampleSize exampleParams origin
     = Inr (256, exampleTerrain)
   \<and> 0 < height exampleSize \<and> (0::int) \<le> 0 \<and> 0 < width exampleSize
   \<and> (\<exists>!h. 0 \<le> h \<and> h < height exampleSize
            \<and> (\<forall>y. 0 \<le> y \<and> y \<le> h \<longrightarrow> cell exampleTerrain 0 y 0 \<noteq> Some Air)
            \<and> (\<forall>y. h < y \<and> y < height exampleSize \<longrightarrow> cell exampleTerrain 0 y 0 = Some Air)
            \<and> cell exampleTerrain 0 h 0 = Some Grass)"
proof -
  have s: "0 < height exampleSize" "(0::int) \<le> 0" "0 < width exampleSize"
    by (simp_all add: exampleSize_def)
  show ?thesis
    using terrain_column_profile[OF example_terrain_run s(1) s(2) s(3) s(2) s(3)]
      example_terrain_run s by simp
qed

subsection \<open>Bedrock\<close>

text \<open>
  Claim C3, as amended. After \<open>generateTerrain\<close> has run, every cell below the bedrock
  thickness of its column and below the column's surface height is Bedrock. (At the
  surface height and above it the Grass and Air writes come first, whatever the bedrock
  thickness.)
\<close>

theorem terrain_bedrock_below_surface:
  assumes run: "generateTerrain env rng g wsize params chunkPos = Inr (rng', out)"
    and x: "0 \<le> x" "x < width wsize" and z: "0 \<le> z" "z < width wsize"
    and y: "0 \<le> y" "y < columnHeight (fst (SimplexNoise_new env rng)) wsize params chunkPos x z"
    and b: "real_of_int y < numBedrockBlocks (fst (SimplexNoise_new env rng)) params x z"
  shows "cell out x y z = Some Bedrock"
proof -
  have "y < height wsize"
    using y by (simp add: columnHeight_def Let_def split: if_splits)
  then show ?thesis
    using generateTerrain_cell[OF run, of x y z] x z y b by (simp add: terrainBlock_def)
qed

theorem terrain_bedrock_below_surface_witness:
  "generateTerrain (flatRandom 0 0) 0 (emptyChunk exampleSize) exampleSize exampleParams origin
     = Inr (256, exampleTerrain)
   \<and> 0 < width exampleSize
   \<and> 0 < columnHeight (fst (SimplexNoise_new (flatRandom 0 0) 0)) exampleSize exampleParams origin 0 0
   \<and> real_of_int 0 < numBedrockBlocks (fst (SimplexNoise_new (flatRandom 0 0) 0)) exampleParams 0 0
   \<and> cell exampleTerrain 0 0 0 = Some Bedrock"
proof -
  have s: "(0::int) \<le> 0" "0 < width exampleSize"
    by (simp_all add: exampleSize_def)
  have h: "0 < columnHeight (fst (SimplexNoise_new (flatRandom 0 0) 0)) exampleSize exampleParams origin 0 0"
    by (simp add: example_simplex example_columnHeight)
  have b: "real_of_int 0 < numBedrockBlocks (fst (SimplexNoise_new (flatRandom 0 0) 0)) exampleParams 0 0"
    by (simp add: example_simplex example_numBedrockBlocks)
  show ?thesis
    using terrain_bedrock_below_surface[OF example_terrain_run s(1) s(2) s(1) s(2) s(1) h b]
      example_terrain_run s h b by simp
qed

text \<open>
  The claim as stated fails where the bedrock thickness reaches the surface: with a
  bedrock offset of 4 the cell at the surface height 3 is below the bedrock thickness,
  and it is Grass.
\<close>

theorem terrain_bedrock_counterexample:
  "real_of_int 3 < numBedrockBlocks (flatNoise 0) thickBedrock 0 0
   \<and> blockAt (generateTerrain (flatRandom 0 0) 0 (emptyChunk exampleSize) exampleSize
        thickBedrock origin) 0 3 0 = Inr (Some Grass)"
  by (simp add: generateTerrain_def flatRandom_def terrainColumn_def upto.simps terrainCell_def
      columnHeight_def numSurfaceBlocks_def numBedrockBlocks_def flatNoise_def exampleParams_def
      exampleSize_def origin_def getBlock_def setBlock_def emptyChunk_def thickBedrock_def
      blockAt_def cell_def)

subsection \<open>Resources after the terrain stage\<close>

text \<open>
  Claim C4. After \<open>generateTerrain\<close> has run on the grid that \<open>generateResources\<close>
  produced, a cell of the chunk that holds a resource lies in the stone band of its
  column, \<open>numBedrockBlocks \<le> y < height - numSurfaceBlocks\<close>, and it is the resource
  that \<open>generateResources\<close> had put there; outside the band no resource is left.
\<close>

theorem terrain_resource_band:
  assumes res: "generateResources env oreConfig rng0 g0 wsize chunkPos = Inr (rng, g)"
    and run: "generateTerrain env rng g wsize params chunkPos = Inr (rng', out)"
    and x: "0 \<le> x" "x < width wsize" and z: "0 \<le> z" "z < width wsize"
    and y: "0 \<le> y" "y < height wsize"
    and ore: "cell out x y z = Some (Ore n)"
  shows "numBedrockBlocks (fst (SimplexNoise_new env rng)) params x z \<le> real_of_int y
       \<and> real_of_int y
           < real_of_int (columnHeight (fst (SimplexNoise_new env rng)) wsize params chunkPos x z)
             - numSurfaceBlocks (fst (SimplexNoise_new env rng)) params x z
       \<and> cell g x y z = Some (Ore n)"
  using generateTerrain_cell[OF run, of x y z] x z y ore
  by (simp add: terrainBlock_def split: if_splits)

theorem terrain_resource_band_witness:
  "generateResources (flatRandom 0 0) exampleOres 0 (emptyChunk exampleSize) exampleSize origin
     = Inr (256, exampleResources)
   \<and> generateTerrain (flatRandom 0 0) 256 exampleResources exampleSize exampleParams origin
     = Inr (512, exampleOreTerrain)
   \<and> 0 < width exampleSize \<and> 1 < height exampleSize
   \<and> cell exampleOreTerrain 0 1 0 = Some (Ore 1)
   \<and> numBedrockBlocks (fst (SimplexNoise_new (flatRandom 0 0) 256)) exampleParams 0 0
       \<le> real_of_int 1
   \<and> real_of_int 1
       < real_of_int (columnHeight (fst (SimplexNoise_new (flatRandom 0 0) 256)) exampleSize
           exampleParams origin 0 0)
         - numSurfaceBlocks (fst (SimplexNoise_new (flatRandom 0 0) 256)) exampleParams 0 0
   \<and> cell exampleResources 0 1 0 = Some (Ore 1)"
proof -
  have s: "(0::int) \<le> 0" "0 < width exampleSize" "(0::int) \<le> 1" "1 < height exampleSize"
    by (simp_all add: exampleSize_def)
  have o: "cell exampleOreTerrain 0 1 0 = Some (Ore 1)"
    by (simp add: cell_def exampleOreTerrain_def)
  show ?thesis
    using terrain_resource_band[OF example_resources_run example_ore_terrain_run
        s(1) s(2) s(1) s(2) s(3) s(4) o]
      example_resources_run example_ore_terrain_run s o by simp
qed

section \<open>The tree stage\<close>

subsection \<open>The canopy\<close>

lemma leafCell_hasRow:
  "leafCell env params cx cy cz rad x y z (rng, g) = Inr (rng', g') \<Longrightarrow>
     hasRow g' x' y' = hasRow g x' y'"
  by (auto simp: leafCell_def getBlock_cell setBlock_hasRow split: if_splits prod.splits sum.splits)

lemma leafCell_cell:
  assumes "leafCell env params cx cy cz rad x y z (rng, g) = Inr (rng', g')"
  shows "cell g' x' y' z' = cell g x' y' z'
       \<or> (x' = cx + x \<and> y' = cy + y \<and> z' = cz + z \<and> x * x + y * y + z * z \<le> rad * rad
           \<and> cell g x' y' z' = Some Air \<and> cell g' x' y' z' = Some Leaves)"
  using assms
  by (auto simp: leafCell_def getBlock_cell setBlock_cell split: if_splits prod.splits sum.splits)

lemma leafed_refl: "leafed cx cy cz rad g g"
  by (simp add: leafed_def)

lemma leafed_step:
  assumes "leafed cx cy cz rad g (snd t)"
    and "leafCell env params cx cy cz rad x y z t = Inr t'"
  shows "leafed cx cy cz rad g (snd t')"
proof -
  obtain r1 g1 where t: "t = (r1, g1)" by (cases t)
  obtain r2 g2 where t': "t' = (r2, g2)" by (cases t')
  note step = assms(2)[unfolded t t']
  have row: "hasRow g2 x' y' = hasRow g x' y'" for x' y'
    using leafCell_hasRow[OF step] assms(1) by (simp add: leafed_def t)
  have c: "cell g x' y' z' = Some Air \<and> cell g2 x' y' z' = Some Leaves
           \<and> (x' - cx) * (x' - cx) + (y' - cy) * (y' - cy) + (z' - cz) * (z' - cz) \<le> rad * rad"
    if ne: "cell g2 x' y' z' \<noteq> cell g x' y' z'" for x' y' z'
  proof (cases "cell g2 x' y' z' = cell g1 x' y' z'")
    case True
    with ne assms(1) show ?thesis by (simp add: leafed_def t)
  next
    case False
    with leafCell_cell[OF step, of x' y' z']
    have n: "x' = cx + x" "y' = cy + y" "z' = cz + z" "x * x + y * y + z * z \<le> rad * rad"
      "cell g1 x' y' z' = Some Air" "cell g2 x' y' z' = Some Leaves" by auto
    have "cell g1 x' y' z' = cell g x' y' z'"
    proof (rule ccontr)
      assume "cell g1 x' y' z' \<noteq> cell g x' y' z'"
      with assms(1) have "cell g1 x' y' z' = Some Leaves" by (simp add: leafed_def t)
      with n(5) show False by simp
    qed
    with n show ?thesis by simp
  qed
  show ?thesis unfolding leafed_def t' using row c by auto
qed

lemma leafRow_leafed:
  assumes "forM zs (\<lambda>z. leafCell env params cx cy cz rad x y z) t = Inr t'"
    and "leafed cx cy cz rad g (snd t)"
  shows "leafed cx cy cz rad g (snd t')"
  by (rule forM_invariant[OF assms(1), where P = "\<lambda>t. leafed cx cy cz rad g (snd t)"])
     (auto intro: assms(2) leafed_step)

lemma leafPlane_leafed:
  assumes "forM ys (\<lambda>y. forM zs (\<lambda>z. leafCell env params cx cy cz rad x y z)) t = Inr t'"
    and "leafed cx cy cz rad g (snd t)"
  shows "leafed cx cy cz rad g (snd t')"
  by (rule forM_invariant[OF assms(1), where P = "\<lambda>t. leafed cx cy cz rad g (snd t)"])
     (auto intro: assms(2) leafRow_leafed)

lemma generateCanopy_leafed:
  assumes "generateCanopy env params cx cy cz rad t = Inr t'"
  shows "leafed cx cy cz rad (snd t) (snd t')"
  by (rule forM_invariant[OF assms[unfolded generateCanopy_def],
        where P = "\<lambda>u. leafed cx cy cz rad (snd t) (snd u)"])
     (auto intro: leafed_refl leafPlane_leafed)

text \<open>
  Claim C7. A cell that the canopy loop of a tree changes becomes Leaves, lies within the
  radius \<open>R\<close> drawn for that tree of the canopy centre \<open>(baseX, topY, baseZ)\<close>, and was
  Air. The loop visits each offset once and writes nothing but Leaves, so the cell was
  Air at the moment of the write as it was when the loop began.
\<close>

theorem canopy_sphere_on_air:
  assumes "generateCanopy env params baseX topY baseZ R (rng, input) = Inr (rng', out)"
    and "cell out x y z \<noteq> cell input x y z"
  shows "cell out x y z = Some Leaves \<and> cell input x y z = Some Air
       \<and> (x - baseX) * (x - baseX) + (y - topY) * (y - topY) + (z - baseZ) * (z - baseZ) \<le> R * R"
  using generateCanopy_leafed[OF assms(1)] assms(2) by (simp add: leafed_def)

theorem canopy_sphere_on_air_witness:
  "\<exists>rng' out. generateCanopy (flatRandom 0 1) leafyParams 1 1 1 1 (0, emptyChunk cubeSize)
        = Inr (rng', out)
     \<and> cell out 0 1 1 \<noteq> cell (emptyChunk cubeSize) 0 1 1
     \<and> cell out 0 1 1 = Some Leaves \<and> cell (emptyChunk cubeSize) 0 1 1 = Some Air
     \<and> (0 - 1) * (0 - 1) + (1 - 1) * (1 - 1) + (1 - 1) * (1 - 1) \<le> (1::int) * 1"
proof -
  have "\<exists>rng' out. generateCanopy (flatRandom 0 1) leafyParams 1 1 1 1 (0, emptyChunk cubeSize)
        = Inr (rng', out) \<and> cell out 0 1 1 \<noteq> cell (emptyChunk cubeSize) 0 1 1"
    by (simp add: generateCanopy_def upto_m11 leafCell_def flatRandom_def leafyParams_def
        exampleParams_def cubeSize_def getBlock_def setBlock_def emptyChunk_def cell_def)
  then obtain rng' out where
    run: "generateCanopy (flatRandom 0 1) leafyParams 1 1 1 1 (0, emptyChunk cubeSize) = Inr (rng', out)"
    and ne: "cell out 0 1 1 \<noteq> cell (emptyChunk cubeSize) 0 1 1"
    by blast
  from canopy_sphere_on_air[OF run ne] run ne show ?thesis by auto
qed

subsection \<open>Trees only add logs, and leaves on air\<close>

lemma grown_refl: "grown g g"
  by (simp add: grown_def)

lemma grownD:
  "grown g g' \<Longrightarrow> cell g' x y z \<noteq> cell g x y z \<Longrightarrow>
     cell g' x y z = Some OakLog \<or> (cell g' x y z = Some Leaves \<and> cell g x y z = Some Air)"
  unfolding grown_def by blast

lemma grown_trans:
  assumes "grown g g1" and "grown g1 g2"
  shows "grown g g2"
proof -
  have row: "hasRow g2 x y = hasRow g x y" for x y
    using assms by (simp add: grown_def)
  have c: "cell g2 x y z = Some OakLog \<or> (cell g2 x y z = Some Leaves \<and> cell g x y z = Some Air)"
    if ne: "cell g2 x y z \<noteq> cell g x y z" for x y z
  proof (cases "cell g2 x y z = cell g1 x y z")
    case True
    with ne grownD[OF assms(1), of x y z] show ?thesis by simp
  next
    case False
    with grownD[OF assms(2), of x y z] have s: "cell g2 x y z = Some OakLog
        \<or> (cell g2 x y z = Some Leaves \<and> cell g1 x y z = Some Air)"
      by simp
    show ?thesis
    proof (cases "cell g1 x y z = cell g x y z")
      case True
      with s show ?thesis by simp
    next
      case False
      with grownD[OF assms(1), of x y z]
      have "cell g1 x y z = Some OakLog \<or> cell g1 x y z = Some Leaves"
        by blast
      with s show ?thesis by auto
    qed
  qed
  show ?thesis unfolding grown_def using row c by blast
qed

lemma leafed_grown: "leafed cx cy cz rad g g' \<Longrightarrow> grown g g'"
  by (auto simp: leafed_def grown_def)

lemma setLog_grown: "setBlock g x y z OakLog = Inr g' \<Longrightarrow> grown g g'"
  by (auto simp: grown_def setBlock_hasRow setBlock_cell)

lemma trunk_grown:
  assumes "forM ys (\<lambda>i inp. setBlock inp x i z OakLog) g = Inr g'"
  shows "grown g g'"
  by (rule forM_invariant[OF assms, where P = "\<lambda>t. grown g t"])
     (auto intro: grown_refl grown_trans setLog_grown)

lemma growTree_grown:
  assumes "growTree env params baseX baseZ y st = Inr st'"
  shows "grown (snd st) (snd st')"
proof -
  obtain rng g where st: "st = (rng, g)" by (cases st)
  obtain r1 rng1 where d1: "RNG_random env rng = (r1, rng1)" by (cases "RNG_random env rng")
  obtain r2 rng2 where d2: "RNG_random env rng1 = (r2, rng2)" by (cases "RNG_random env rng1")
  let ?th = "drawSize r1 (trees_trunkHeight_min params) (trees_trunkHeight_max params)"
  from assms obtain g1 where
    trunk: "forM [y + 1..y + 1 + ?th - 1] (\<lambda>i inp. setBlock inp baseX i baseZ OakLog) g = Inr g1"
    and can: "generateCanopy env params baseX (y + 1 + ?th) baseZ
       (drawSize r2 (trees_canopy_size_min params) (trees_canopy_size_max params)) (rng2, g1) = Inr st'"
    by (auto simp: growTree_def st d1 d2 Let_def split: sum.splits)
  from generateCanopy_leafed[OF can] have "grown g1 (snd st')"
    by (auto intro: leafed_grown)
  with trunk_grown[OF trunk] show ?thesis
    by (auto simp: st intro: grown_trans)
qed

lemma scanCell_grown:
  "scanCell env params baseX baseZ y st = Inr st' \<Longrightarrow> grown (snd st) (snd st')"
  by (auto simp: scanCell_def grown_refl growTree_grown split: sum.splits if_splits)

lemma scan_grown:
  assumes "forM ys (scanCell env params baseX baseZ) st = Inr st'"
  shows "grown (snd st) (snd st')"
  by (rule forM_invariant[OF assms, where P = "\<lambda>t. grown (snd st) (snd t)"])
     (auto intro: grown_refl grown_trans scanCell_grown)

lemma treeColumn_grown:
  "treeColumn env simplex wsize params chunkPos baseX baseZ st = Inr st' \<Longrightarrow>
     grown (snd st) (snd st')"
  by (auto simp: treeColumn_def Let_def grown_refl scan_grown split: if_splits)

lemma grown_no_new_grass: "grown g g' \<Longrightarrow> cell g' x y z = Some Grass \<Longrightarrow> cell g x y z = Some Grass"
  using grownD[of g g' x y z] by (cases "cell g' x y z = cell g x y z") auto

subsection \<open>The scan of a column\<close>

lemma scan_no_grass:
  "forM ys (scanCell env params baseX baseZ) st = Inr st' \<Longrightarrow>
     \<forall>y\<in>set ys. cell (snd st) baseX y baseZ \<noteq> Some Grass \<Longrightarrow> st' = st"
proof (induction ys arbitrary: st)
  case Nil
  then show ?case by simp
next
  case (Cons y ys)
  from Cons.prems(1) obtain t where t: "scanCell env params baseX baseZ y st = Inr t"
    and r: "forM ys (scanCell env params baseX baseZ) t = Inr st'"
    by (auto split: sum.splits)
  from t Cons.prems(2) have "t = st"
    by (auto simp: scanCell_def getBlock_cell split: if_splits)
  with Cons.IH[OF r] Cons.prems(2) show ?case by simp
qed

lemma scan_single_grass:
  assumes run: "forM (rev [0..h - 1]) (scanCell env params baseX baseZ) st = Inr st'"
    and y0: "0 \<le> y0" "y0 < h" "cell (snd st) baseX y0 baseZ = Some Grass"
    and one: "\<forall>y. 0 \<le> y \<and> y < h \<and> y \<noteq> y0 \<longrightarrow> cell (snd st) baseX y baseZ \<noteq> Some Grass"
  shows "growTree env params baseX baseZ y0 st = Inr st'"
proof -
  have split: "rev [0..h - 1] = rev [y0 + 1..h - 1] @ y0 # rev [0..y0 - 1]"
    using upto_split3[of 0 y0 "h - 1"] y0 by simp
  from run obtain t1 where a: "forM (rev [y0 + 1..h - 1]) (scanCell env params baseX baseZ) st = Inr t1"
    and b: "forM (y0 # rev [0..y0 - 1]) (scanCell env params baseX baseZ) t1 = Inr st'"
    unfolding split forM_append by (auto split: sum.splits)
  have "t1 = st"
  proof (rule scan_no_grass[OF a], rule ballI)
    fix y assume "y \<in> set (rev [y0 + 1..h - 1])"
    then have "0 \<le> y \<and> y < h \<and> y \<noteq> y0" using y0 by auto
    with one show "cell (snd st) baseX y baseZ \<noteq> Some Grass" by blast
  qed
  with b obtain t2 where c: "scanCell env params baseX baseZ y0 st = Inr t2"
    and d: "forM (rev [0..y0 - 1]) (scanCell env params baseX baseZ) t2 = Inr st'"
    by (auto split: sum.splits)
  from c y0(3) have g: "growTree env params baseX baseZ y0 st = Inr t2"
    by (auto simp: scanCell_def getBlock_cell split: if_splits)
  have "st' = t2"
  proof (rule scan_no_grass[OF d], rule ballI)
    fix y assume "y \<in> set (rev [0..y0 - 1])"
    then have "0 \<le> y \<and> y < h \<and> y \<noteq> y0" using y0 by auto
    with one have "cell (snd st) baseX y baseZ \<noteq> Some Grass" by blast
    with grown_no_new_grass[OF growTree_grown[OF g]]
    show "cell (snd t2) baseX y baseZ \<noteq> Some Grass" by blast
  qed
  with g show ?thesis by simp
qed

text \<open>
  Claim C6, as amended. In a candidate column with at most one Grass cell, as every
  column has after \<open>generateTerrain\<close>, the scan plants one tree: the result of the
  column is that of \<open>growTree\<close> at the Grass cell \<open>y\<close>, whose trunk starts at
  \<open>baseY = y + 1\<close>. In a column with no Grass cell, and in a column that the noise
  test skips, nothing is planted.
\<close>

theorem tree_at_single_grass:
  assumes run: "treeColumn env simplex wsize params chunkPos baseX baseZ (rng, input) = Inr st'"
    and one: "\<forall>y y'. 0 \<le> y \<and> y < height wsize \<and> 0 \<le> y' \<and> y' < height wsize
                \<and> cell input baseX y baseZ = Some Grass \<and> cell input baseX y' baseZ = Some Grass
              \<longrightarrow> y = y'"
  shows "(\<forall>y. 0 \<le> y \<and> y < height wsize \<and> cell input baseX y baseZ = Some Grass
              \<and> \<not> treeNoise simplex chunkPos baseX baseZ < 1 - trees_frequency params
            \<longrightarrow> growTree env params baseX baseZ y (rng, input) = Inr st')
       \<and> ((\<forall>y. 0 \<le> y \<and> y < height wsize \<longrightarrow> cell input baseX y baseZ \<noteq> Some Grass)
            \<longrightarrow> st' = (rng, input))
       \<and> (treeNoise simplex chunkPos baseX baseZ < 1 - trees_frequency params
            \<longrightarrow> st' = (rng, input))"
proof (intro conjI allI impI)
  fix y
  assume y: "0 \<le> y \<and> y < height wsize \<and> cell input baseX y baseZ = Some Grass
              \<and> \<not> treeNoise simplex chunkPos baseX baseZ < 1 - trees_frequency params"
  with run have scan: "forM (rev [0..height wsize - 1]) (scanCell env params baseX baseZ) (rng, input)
      = Inr st'"
    by (simp add: treeColumn_def Let_def)
  show "growTree env params baseX baseZ y (rng, input) = Inr st'"
    by (rule scan_single_grass[OF scan]) (use y one in auto)
next
  assume none: "\<forall>y. 0 \<le> y \<and> y < height wsize \<longrightarrow> cell input baseX y baseZ \<noteq> Some Grass"
  show "st' = (rng, input)"
  proof (cases "treeNoise simplex chunkPos baseX baseZ < 1 - trees_frequency params")
    case True
    with run show ?thesis by (simp add: treeColumn_def Let_def)
  next
    case False
    with run have scan: "forM (rev [0..height wsize - 1]) (scanCell env params baseX baseZ) (rng, input)
      = Inr st'"
      by (simp add: treeColumn_def Let_def)
    show ?thesis
      by (rule scan_no_grass[OF scan]) (use none in auto)
  qed
next
  assume "treeNoise simplex chunkPos baseX baseZ < 1 - trees_frequency params"
  with run show "st' = (rng, input)" by (simp add: treeColumn_def Let_def)
qed

theorem tree_at_single_grass_witness:
  "treeColumn (flatRandom 0 0) (flatNoise 0) exampleSize exampleParams origin 0 0 (0, exampleTerrain)
     = Inr (3, exampleTree)
   \<and> 3 < height exampleSize \<and> cell exampleTerrain 0 3 0 = Some Grass
   \<and> \<not> treeNoise (flatNoise 0) origin 0 0 < 1 - trees_frequency exampleParams
   \<and> growTree (flatRandom 0 0) exampleParams 0 0 3 (0, exampleTerrain) = Inr (3, exampleTree)"
proof -
  have one: "\<forall>y y'. 0 \<le> y \<and> y < height exampleSize \<and> 0 \<le> y' \<and> y' < height exampleSize
                \<and> cell exampleTerrain 0 y 0 = Some Grass \<and> cell exampleTerrain 0 y' 0 = Some Grass
              \<longrightarrow> y = y'"
    by (simp add: exampleTerrain_grass)
  have s: "3 < height exampleSize" "cell exampleTerrain 0 3 0 = Some Grass"
    "\<not> treeNoise (flatNoise 0) origin 0 0 < 1 - trees_frequency exampleParams"
    by (simp_all add: exampleSize_def exampleTerrain_grass treeNoise_def flatNoise_def
        exampleParams_def)
  from tree_at_single_grass[OF example_treeColumn_run one] s
  have "growTree (flatRandom 0 0) exampleParams 0 0 3 (0, exampleTerrain) = Inr (3, exampleTree)"
    by simp
  with example_treeColumn_run s show ?thesis by simp
qed

text \<open>
  The claim as stated, for every input grid, fails: the scan does not stop at the first
  Grass cell. In a column with Grass at \<open>y = 2\<close> and at \<open>y = 0\<close> a trunk stands above
  each of them.
\<close>

theorem two_grass_two_trees:
  "cell twoGrass 0 2 0 = Some Grass \<and> cell twoGrass 0 0 0 = Some Grass
   \<and> cell twoGrass 0 1 0 = Some Air
   \<and> blockAt (generateTrees (flatRandom 0 0) 0 twoGrass exampleSize exampleParams origin) 0 3 0
       = Inr (Some OakLog)
   \<and> blockAt (generateTrees (flatRandom 0 0) 0 twoGrass exampleSize exampleParams origin) 0 1 0
       = Inr (Some OakLog)"
  by (simp add: generateTrees_def candidates_def treeColumn_def treeNoise_def scanCell_def
      growTree_def generateCanopy_def
      leafCell_def drawSize_def upto.simps flatRandom_def flatNoise_def exampleParams_def
      exampleSize_def origin_def getBlock_def setBlock_def twoGrass_def blockAt_def cell_def)

subsection \<open>No trees\<close>

lemma initEmptyChunk_cells:
  assumes "initEmptyChunk chunkSize = Inr data0"
  shows "cell data0 x y z = None \<or> cell data0 x y z = Some Air"
proof (cases "0 < width chunkSize")
  case False
  with assms have "data0 = Map.empty"
    by (auto simp: initEmptyChunk_def newArray_def split: if_splits)
  then show ?thesis by (simp add: cell_def)
next
  case True
  then have up: "[0..width chunkSize - 1] = 0 # [1..width chunkSize - 1]"
    by (simp add: upto_rec1)
  from assms have w: "width chunkSize < 4294967296"
    by (auto simp: initEmptyChunk_def newArray_def split: if_splits)
  from assms obtain plane where "initPlane chunkSize = Inr plane"
    by (auto simp: initEmptyChunk_def newArray_def up split: if_splits sum.splits)
  then have h: "0 \<le> height chunkSize" "height chunkSize < 4294967296"
    by (auto simp: initPlane_def newArray_def split: if_splits)
  from assms initEmptyChunk_eq[OF True w h] have "data0 = emptyChunk chunkSize" by simp
  then show ?thesis by (simp add: cell_emptyChunk)
qed

lemma lastPassing_mem:
  assumes "lastPassing sx p x y z cs = Some c"
  shows "c \<in> set cs"
proof -
  define fs where
    "fs = filter (\<lambda>config. oreSample sx config p x y z > config_scarcity config) cs"
  from assms have "fs \<noteq> []" "c = last fs"
    by (auto simp: lastPassing_def fs_def split: list.splits)
  then have "c \<in> set fs" using last_in_set by blast
  then show ?thesis unfolding fs_def by (rule filter_is_subset[THEN subsetD])
qed

lemma terrainBlock_noTreeBlock: "noTreeBlock old \<Longrightarrow> noTreeBlock (terrainBlock h ns nb y old)"
  by (simp add: noTreeBlock_def terrainBlock_def)

lemma generateTrees_skips_all:
  assumes f: "trees_frequency params = 0" and b: "simplexBounded env"
  shows "generateTrees env rng input wsize params chunkPos
           = Inr (snd (SimplexNoise_new env rng), input)"
proof -
  obtain simplex rng' where sx: "SimplexNoise_new env rng = (simplex, rng')"
    by (cases "SimplexNoise_new env rng")
  have col: "treeColumn env simplex wsize params chunkPos baseX baseZ st = Inr st"
    for baseX baseZ st
  proof -
    from b have "noise simplex (vec_x chunkPos + real_of_int baseX)
                (vec_z chunkPos + real_of_int baseZ) \<le> 998 / 1000"
      unfolding simplexBounded_def using sx by (metis fst_conv)
    then have "treeNoise simplex chunkPos baseX baseZ < 1 - trees_frequency params"
      by (simp add: treeNoise_def f)
    then show ?thesis by (simp add: treeColumn_def Let_def)
  qed
  have "forM (candidates wsize params) (\<lambda>baseX.
            forM (candidates wsize params) (\<lambda>baseZ.
              treeColumn env simplex wsize params chunkPos baseX baseZ)) (rng', input)
          = Inr (rng', input)"
    by (intro forM_skip col)
  then show ?thesis by (simp add: generateTrees_def sx)
qed

text \<open>
  Claim C9. With \<open>trees.frequency = 0\<close> the test \<open>n < 1 - frequency\<close> skips every
  candidate column, whatever the seed and the origin, the noise being below 1 by the
  margin of \<open>simplexBounded\<close>: \<open>generateTrees\<close> returns its input grid as it is, and the
  chunk that \<open>generateChunk\<close> returns holds no OakLog and no Leaves (the resources being
  other blocks than these two).
\<close>

theorem no_trees_at_zero_frequency:
  assumes f: "trees_frequency params = 0" and b: "simplexBounded env"
  shows "generateTrees env rng input wsize params chunkPos
           = Inr (snd (SimplexNoise_new env rng), input)
       \<and> ((\<forall>c\<in>set oreConfig. config_id c \<noteq> OakLog \<and> config_id c \<noteq> Leaves)
            \<longrightarrow> (\<forall>out x' y' z'. generateChunk env oreConfig wsize params x z = Inr out
                   \<longrightarrow> cell out x' y' z' \<noteq> Some OakLog \<and> cell out x' y' z' \<noteq> Some Leaves))"
proof (intro conjI impI allI)
  show "generateTrees env rng input wsize params chunkPos
           = Inr (snd (SimplexNoise_new env rng), input)"
    by (rule generateTrees_skips_all[OF f b])
next
  fix out x' y' z'
  assume ores: "\<forall>c\<in>set oreConfig. config_id c \<noteq> OakLog \<and> config_id c \<noteq> Leaves"
    and run: "generateChunk env oreConfig wsize params x z = Inr out"
  let ?pos = "\<lparr>vec_x = x, vec_y = 0, vec_z = z\<rparr>"
  from run obtain data0 rng1 g1 rng2 g2 rng3 where
    init: "initEmptyChunk wsize = Inr data0"
    and res: "generateResources env oreConfig (RNG_new env (seed params)) data0 wsize ?pos
        = Inr (rng1, g1)"
    and ter: "generateTerrain env rng1 g1 wsize params ?pos = Inr (rng2, g2)"
    and tre: "generateTrees env rng2 g2 wsize params ?pos = Inr (rng3, out)"
    by (auto simp: generateChunk_def Let_def split: sum.splits prod.splits)
  from tre generateTrees_skips_all[OF f b, of rng2 g2 wsize ?pos] have out: "out = g2" by simp
  have c0: "noTreeBlock (cell data0 x' y' z')"
    using initEmptyChunk_cells[OF init, of x' y' z'] by (auto simp: noTreeBlock_def)
  have c1: "noTreeBlock (cell g1 x' y' z')"
  proof -
    from res have "forM oreConfig (orePass (fst (SimplexNoise_new env (RNG_new env (seed params))))
        wsize ?pos) data0 = Inr g1"
      by (simp add: generateResources_Inr)
    from orePasses_cell[OF this, of x' y' z'] show ?thesis
      using c0 ores lastPassing_mem
      by (auto simp: fold_oreBlock noTreeBlock_def split: if_splits option.splits)
  qed
  have "noTreeBlock (cell g2 x' y' z')"
    using generateTerrain_cell[OF ter, of x' y' z'] c1 terrainBlock_noTreeBlock
    by (auto split: if_splits)
  then show "cell out x' y' z' \<noteq> Some OakLog" "cell out x' y' z' \<noteq> Some Leaves"
    by (simp_all add: out noTreeBlock_def)
qed

lemma flatRandom_bounded: "c \<le> 998 / 1000 \<Longrightarrow> simplexBounded (flatRandom c r)"
  by (simp add: simplexBounded_def flatRandom_def flatNoise_def)

lemma example_noTrees_chunk:
  "generateChunk (flatRandom 0 0) exampleOres exampleSize noTrees 0 0 = Inr exampleOreTerrain"
proof -
  have o: "\<lparr>vec_x = 0, vec_y = 0, vec_z = 0\<rparr> = origin" by (simp add: origin_def)
  have i: "initEmptyChunk exampleSize = Inr (emptyChunk exampleSize)"
    by (rule initEmptyChunk_eq) (simp_all add: exampleSize_def)
  have n: "RNG_new (flatRandom 0 0) (seed noTrees) = 0" by (simp add: flatRandom_def)
  have t: "generateTerrain (flatRandom 0 0) 256 exampleResources exampleSize noTrees origin
     = Inr (512, exampleOreTerrain)"
    by (simp add: generateTerrain_def flatRandom_def terrainColumn_def upto.simps terrainCell_def
      columnHeight_def numSurfaceBlocks_def numBedrockBlocks_def flatNoise_def exampleParams_def
      exampleSize_def origin_def getBlock_def setBlock_def exampleResources_def noTrees_def
      exampleOreTerrain_def fun_eq_iff)
  have f: "trees_frequency noTrees = 0" by (simp add: noTrees_def exampleParams_def)
  have b: "simplexBounded (flatRandom 0 0)" by (rule flatRandom_bounded) simp
  show ?thesis
    by (simp add: generateChunk_def Let_def o i n example_resources_run t
        generateTrees_skips_all[OF f b])
qed

theorem no_trees_at_zero_frequency_witness:
  "trees_frequency noTrees = 0 \<and> simplexBounded (flatRandom 0 0)
   \<and> generateTrees (flatRandom 0 0) 0 exampleTerrain exampleSize noTrees origin
       = Inr (snd (SimplexNoise_new (flatRandom 0 0) 0), exampleTerrain)
   \<and> config_id exampleOre \<noteq> OakLog \<and> config_id exampleOre \<noteq> Leaves
   \<and> generateChunk (flatRandom 0 0) exampleOres exampleSize noTrees 0 0 = Inr exampleOreTerrain
   \<and> cell exampleOreTerrain 0 4 0 \<noteq> Some OakLog \<and> cell exampleOreTerrain 0 4 0 \<noteq> Some Leaves"
proof -
  have f: "trees_frequency noTrees = 0" by (simp add: noTrees_def exampleParams_def)
  have b: "simplexBounded (flatRandom 0 0)" by (rule flatRandom_bounded) simp
  have ores: "\<forall>c\<in>set exampleOres. config_id c \<noteq> OakLog \<and> config_id c \<noteq> Leaves"
    by (simp add: exampleOres_def exampleOre_def)
  have e: "config_id exampleOre \<noteq> OakLog \<and> config_id exampleOre \<noteq> Leaves"
    by (simp add: exampleOre_def)
  note inst = no_trees_at_zero_frequency[OF f b, of 0 exampleTerrain exampleSize origin
      exampleOres 0 0]
  from inst have g: "generateTrees (flatRandom 0 0) 0 exampleTerrain exampleSize noTrees origin
       = Inr (snd (SimplexNoise_new (flatRandom 0 0) 0), exampleTerrain)" by blast
  from inst ores example_noTrees_chunk
  have "cell exampleOreTerrain 0 4 0 \<noteq> Some OakLog \<and> cell exampleOreTerrain 0 4 0 \<noteq> Some Leaves"
    by blast
  with f b g e example_noTrees_chunk show ?thesis by blast
qed

subsection \<open>The horizontal indices of a tree\<close>

lemma tree_indices_in_width:
  assumes c: "0 \<le> trees_canopy_size_min params"
      "trees_canopy_size_min params \<le> trees_canopy_size_max params"
    and r: "0 \<le> r" "r \<le> 1"
    and b: "baseX \<in> set (candidates wsize params)" "baseZ \<in> set (candidates wsize params)"
    and o: "x \<in> set [- drawSize r (trees_canopy_size_min params) (trees_canopy_size_max params)
                       ..drawSize r (trees_canopy_size_min params) (trees_canopy_size_max params)]"
      "z \<in> set [- drawSize r (trees_canopy_size_min params) (trees_canopy_size_max params)
                 ..drawSize r (trees_canopy_size_min params) (trees_canopy_size_max params)]"
  shows "0 \<le> baseX \<and> baseX < width wsize \<and> 0 \<le> baseZ \<and> baseZ < width wsize
       \<and> 0 \<le> baseX + x \<and> baseX + x < width wsize
       \<and> 0 \<le> baseZ + z \<and> baseZ + z < width wsize"
  using drawSize_range[OF r c(2)] c b o by (auto simp: candidates_def Let_def)

subsection \<open>A tree with room above and below does not throw\<close>

lemma populated_grown:
  assumes "populated wsize g" "grown g g'"
    and logs: "\<And>x y z. cell g' x y z = Some OakLog \<Longrightarrow> cell g x y z \<noteq> Some OakLog
                 \<Longrightarrow> inChunk wsize x y z"
  shows "populated wsize g'"
proof -
  have row: "hasRow g' x y = hasRow g x y" for x y
    using assms(2) by (simp add: grown_def)
  have c: "(cell g' x y z \<noteq> None) = inChunk wsize x y z" for x y z
  proof (cases "cell g' x y z = cell g x y z")
    case True
    with populated_cell[OF assms(1), of x y z] show ?thesis by simp
  next
    case False
    from grownD[OF assms(2) False] show ?thesis
    proof
      assume l: "cell g' x y z = Some OakLog"
      with False have "cell g x y z \<noteq> Some OakLog" by auto
      from logs[OF l this] l show ?thesis by simp
    next
      assume "cell g' x y z = Some Leaves \<and> cell g x y z = Some Air"
      with populated_cell[OF assms(1), of x y z] show ?thesis by simp
    qed
  qed
  show ?thesis unfolding populated_def using row populated_hasRow[OF assms(1)] c by simp
qed

lemma populated_leafed:
  assumes "populated wsize g" "leafed cx cy cz rad g g'"
  shows "populated wsize g'"
proof (rule populated_grown[OF assms(1) leafed_grown[OF assms(2)]])
  fix x y z
  assume l: "cell g' x y z = Some OakLog" "cell g x y z \<noteq> Some OakLog"
  then have "cell g' x y z \<noteq> cell g x y z" by auto
  with assms(2) have "cell g' x y z = Some Leaves" unfolding leafed_def by blast
  with l show "inChunk wsize x y z" by simp
qed

lemma leafCell_total:
  assumes "hasRow (snd st) (cx + x) (cy + y)"
  shows "\<exists>st'. leafCell env params cx cy cz rad x y z st = Inr st'"
proof -
  obtain rng g where st: "st = (rng, g)" by (cases st)
  from assms obtain g' where "setBlock g (cx + x) (cy + y) (cz + z) Leaves = Inr g'"
    using setBlock_Inr_iff[of g "cx + x" "cy + y" "cz + z" Leaves] by (auto simp: st)
  with assms show ?thesis
    by (auto simp: leafCell_def st getBlock_cell split: prod.splits)
qed

lemma leafCell_rows:
  "leafCell env params cx cy cz rad x y z st = Inr st' \<Longrightarrow>
     hasRow (snd st') x' y' = hasRow (snd st) x' y'"
  using leafCell_hasRow[of env params cx cy cz rad x y z "fst st" "snd st" "fst st'" "snd st'"]
  by simp

lemma generateCanopy_total:
  assumes rows: "\<And>x y. x \<in> set [- rad..rad] \<Longrightarrow> y \<in> set [- rad..rad]
                   \<Longrightarrow> hasRow (snd st) (cx + x) (cy + y)"
  shows "\<exists>st'. generateCanopy env params cx cy cz rad st = Inr st'"
proof -
  let ?P = "\<lambda>t. \<forall>x y. hasRow (snd t) x y = hasRow (snd st) x y"
  have cellstep: "\<exists>t'. leafCell env params cx cy cz rad x y z t = Inr t' \<and> ?P t'"
    if "x \<in> set [- rad..rad]" "y \<in> set [- rad..rad]" "?P t" for x y z t
  proof -
    have "hasRow (snd t) (cx + x) (cy + y)" using rows[OF that(1,2)] that(3) by simp
    from leafCell_total[OF this] obtain t' where
      t': "leafCell env params cx cy cz rad x y z t = Inr t'" by blast
    with leafCell_rows[OF t'] that(3) show ?thesis by simp
  qed
  have rowstep: "\<exists>t'. forM [- rad..rad] (\<lambda>z. leafCell env params cx cy cz rad x y z) t = Inr t'
        \<and> ?P t'"
    if "x \<in> set [- rad..rad]" "y \<in> set [- rad..rad]" "?P t" for x y t
    by (rule forM_total[where P = ?P, OF that(3)]) (rule cellstep[OF that(1,2)])
  have planestep: "\<exists>t'. forM [- rad..rad] (\<lambda>y. forM [- rad..rad]
        (\<lambda>z. leafCell env params cx cy cz rad x y z)) t = Inr t' \<and> ?P t'"
    if "x \<in> set [- rad..rad]" "?P t" for x t
    by (rule forM_total[where P = ?P, OF that(2)]) (rule rowstep[OF that(1)])
  have "\<exists>t'. generateCanopy env params cx cy cz rad st = Inr t' \<and> ?P t'"
    unfolding generateCanopy_def
    by (rule forM_total[where P = ?P]) (simp, rule planestep)
  then show ?thesis by blast
qed

lemma trunk_total:
  assumes "populated wsize g" "0 \<le> x" "x < width wsize" "0 \<le> z" "z < width wsize"
    and "\<And>i. i \<in> set ys \<Longrightarrow> 0 \<le> i \<and> i < height wsize"
  shows "\<exists>g'. forM ys (\<lambda>i inp. setBlock inp x i z OakLog) g = Inr g' \<and> populated wsize g'"
  by (intro forM_total[where P = "populated wsize"] assms(1) setBlock_populated)
     (use assms in \<open>auto simp: inChunk_def\<close>)

lemma growTree_total:
  assumes pop: "populated wsize g"
    and y: "0 \<le> y" "y + trees_trunkHeight_max params + trees_canopy_size_max params + 1 < height wsize"
    and bx: "trees_canopy_size_max params \<le> baseX" "baseX < width wsize - trees_canopy_size_max params"
    and bz: "trees_canopy_size_max params \<le> baseZ" "baseZ < width wsize - trees_canopy_size_max params"
    and c: "0 \<le> trees_canopy_size_min params"
      "trees_canopy_size_min params \<le> trees_canopy_size_max params"
    and t: "trees_trunkHeight_min params \<le> trees_trunkHeight_max params"
    and low: "trees_canopy_size_max params \<le> trees_trunkHeight_min params + 1"
    and draws: "\<forall>s. 0 \<le> fst (RNG_random env s) \<and> fst (RNG_random env s) \<le> 1"
  shows "\<exists>st'. growTree env params baseX baseZ y (rng, g) = Inr st' \<and> populated wsize (snd st')"
proof -
  obtain r1 rng1 where d1: "RNG_random env rng = (r1, rng1)" by (cases "RNG_random env rng")
  obtain r2 rng2 where d2: "RNG_random env rng1 = (r2, rng2)" by (cases "RNG_random env rng1")
  define th where "th = drawSize r1 (trees_trunkHeight_min params) (trees_trunkHeight_max params)"
  define rad where "rad = drawSize r2 (trees_canopy_size_min params) (trees_canopy_size_max params)"
  have r1: "0 \<le> r1" "r1 \<le> 1" using draws[rule_format, of rng] by (simp_all add: d1)
  have r2: "0 \<le> r2" "r2 \<le> 1" using draws[rule_format, of rng1] by (simp_all add: d2)
  have th: "trees_trunkHeight_min params \<le> th" "th \<le> trees_trunkHeight_max params"
    using drawSize_range[OF r1 t] by (simp_all add: th_def)
  have rad: "trees_canopy_size_min params \<le> rad" "rad \<le> trees_canopy_size_max params"
    using drawSize_range[OF r2 c(2)] by (simp_all add: rad_def)
  have xr: "0 \<le> baseX" "baseX < width wsize" "0 \<le> baseZ" "baseZ < width wsize"
    using bx bz c by auto
  have "\<exists>g1. forM [y + 1..y + 1 + th - 1] (\<lambda>i inp. setBlock inp baseX i baseZ OakLog) g = Inr g1
          \<and> populated wsize g1"
    by (rule trunk_total[OF pop xr]) (use y th c in auto)
  then obtain g1 where trunk: "forM [y + 1..y + 1 + th - 1]
      (\<lambda>i inp. setBlock inp baseX i baseZ OakLog) g = Inr g1"
    and pop1: "populated wsize g1" by blast
  have "\<exists>st'. generateCanopy env params baseX (y + 1 + th) baseZ rad (rng2, g1) = Inr st'"
  proof (rule generateCanopy_total)
    fix x y'
    assume "x \<in> set [- rad..rad]" "y' \<in> set [- rad..rad]"
    then have o: "- rad \<le> x" "x \<le> rad" "- rad \<le> y'" "y' \<le> rad" by auto
    have "0 \<le> baseX + x" "baseX + x < width wsize"
      "0 \<le> y + 1 + th + y'" "y + 1 + th + y' < height wsize"
      using o rad th bx y low by auto
    then show "hasRow (snd (rng2, g1)) (baseX + x) (y + 1 + th + y')"
      by (simp add: populated_hasRow[OF pop1])
  qed
  then obtain st' where can: "generateCanopy env params baseX (y + 1 + th) baseZ rad (rng2, g1) = Inr st'"
    by blast
  have "populated wsize (snd st')"
    using populated_leafed[OF pop1] generateCanopy_leafed[OF can] by simp
  moreover have "growTree env params baseX baseZ y (rng, g) = Inr st'"
    using trunk can by (simp add: growTree_def d1 d2 Let_def th_def rad_def)
  ultimately show ?thesis by blast
qed

lemma scanCell_total:
  assumes inv: "treeReady wsize hf (snd st)"
    and fits: "treeFits wsize params hf"
    and y: "0 \<le> y" "y < height wsize"
    and bx: "baseX \<in> set (candidates wsize params)"
    and bz: "baseZ \<in> set (candidates wsize params)"
    and c: "0 \<le> trees_canopy_size_min params"
      "trees_canopy_size_min params \<le> trees_canopy_size_max params"
    and t: "trees_trunkHeight_min params \<le> trees_trunkHeight_max params"
    and draws: "\<forall>s. 0 \<le> fst (RNG_random env s) \<and> fst (RNG_random env s) \<le> 1"
  shows "\<exists>st'. scanCell env params baseX baseZ y st = Inr st' \<and> treeReady wsize hf (snd st')"
proof -
  obtain rng g where st: "st = (rng, g)" by (cases st)
  from inv have pop: "populated wsize g" and gb: "grassBelow hf g"
    by (simp_all add: treeReady_def st)
  have b: "trees_canopy_size_max params \<le> baseX" "baseX < width wsize - trees_canopy_size_max params"
    "trees_canopy_size_max params \<le> baseZ" "baseZ < width wsize - trees_canopy_size_max params"
    using bx bz by (auto simp: candidates_def Let_def)
  have row: "hasRow g baseX y" using b c y by (simp add: populated_hasRow[OF pop])
  show ?thesis
  proof (cases "cell g baseX y baseZ = Some Grass")
    case False
    with row inv show ?thesis by (simp add: scanCell_def st getBlock_cell)
  next
    case True
    with gb have "y \<le> hf baseX baseZ" unfolding grassBelow_def by blast
    moreover have "hf baseX baseZ + trees_trunkHeight_max params
        + trees_canopy_size_max params + 1 < height wsize"
      using fits bx bz unfolding treeFits_def by blast
    ultimately have room: "y + trees_trunkHeight_max params + trees_canopy_size_max params + 1
        < height wsize" by simp
    have low: "trees_canopy_size_max params \<le> trees_trunkHeight_min params + 1"
      using fits unfolding treeFits_def by blast
    from growTree_total[OF pop y(1) room b c t low draws, of rng]
    obtain st' where g: "growTree env params baseX baseZ y (rng, g) = Inr st'"
      and pop': "populated wsize (snd st')" by blast
    have "grassBelow hf (snd st')"
      using grown_no_new_grass[OF growTree_grown[OF g]] gb unfolding grassBelow_def
      by (metis snd_conv)
    with pop' g True row show ?thesis
      by (simp add: scanCell_def st getBlock_cell treeReady_def)
  qed
qed

lemma treeColumn_total:
  assumes inv: "treeReady wsize hf (snd st)"
    and fits: "treeFits wsize params hf"
    and bx: "baseX \<in> set (candidates wsize params)"
    and bz: "baseZ \<in> set (candidates wsize params)"
    and c: "0 \<le> trees_canopy_size_min params"
      "trees_canopy_size_min params \<le> trees_canopy_size_max params"
    and t: "trees_trunkHeight_min params \<le> trees_trunkHeight_max params"
    and draws: "\<forall>s. 0 \<le> fst (RNG_random env s) \<and> fst (RNG_random env s) \<le> 1"
  shows "\<exists>st'. treeColumn env simplex wsize params chunkPos baseX baseZ st = Inr st'
           \<and> treeReady wsize hf (snd st')"
proof (cases "treeNoise simplex chunkPos baseX baseZ < 1 - trees_frequency params")
  case True
  with inv show ?thesis by (simp add: treeColumn_def Let_def)
next
  case False
  have "\<exists>st'. forM (rev [0..height wsize - 1]) (scanCell env params baseX baseZ) st = Inr st'
           \<and> treeReady wsize hf (snd st')"
    by (rule forM_total[where P = "\<lambda>t. treeReady wsize hf (snd t)", OF inv])
       (rule scanCell_total[OF _ fits _ _ bx bz c t draws], auto)
  with False show ?thesis by (simp add: treeColumn_def Let_def)
qed

lemma generateTrees_total:
  assumes inv: "treeReady wsize hf g"
    and fits: "treeFits wsize params hf"
    and c: "0 \<le> trees_canopy_size_min params"
      "trees_canopy_size_min params \<le> trees_canopy_size_max params"
    and t: "trees_trunkHeight_min params \<le> trees_trunkHeight_max params"
    and draws: "\<forall>s. 0 \<le> fst (RNG_random env s) \<and> fst (RNG_random env s) \<le> 1"
  shows "\<exists>rng' g'. generateTrees env rng g wsize params chunkPos = Inr (rng', g')
           \<and> populated wsize g'"
proof -
  obtain simplex rng1 where sx: "SimplexNoise_new env rng = (simplex, rng1)"
    by (cases "SimplexNoise_new env rng")
  let ?P = "\<lambda>t. treeReady wsize hf (snd t)"
  have row: "\<exists>t'. forM (candidates wsize params)
        (\<lambda>baseZ. treeColumn env simplex wsize params chunkPos baseX baseZ) t = Inr t' \<and> ?P t'"
    if "baseX \<in> set (candidates wsize params)" "?P t" for baseX t
    by (rule forM_total[where P = ?P, OF that(2)])
       (rule treeColumn_total[OF _ fits that(1) _ c t draws])
  have "\<exists>t'. forM (candidates wsize params) (\<lambda>baseX.
            forM (candidates wsize params) (\<lambda>baseZ.
              treeColumn env simplex wsize params chunkPos baseX baseZ)) (rng1, g) = Inr t'
          \<and> ?P t'"
    by (rule forM_total[where P = ?P]) (simp add: inv, rule row)
  then show ?thesis
    by (auto simp: generateTrees_def sx treeReady_def)
qed

subsection \<open>Where the tree stage writes\<close>


lemma widthKept_refl: "widthKept wsize g g"
  by (simp add: widthKept_def)

lemma widthKeptD:
  "widthKept wsize g g' \<Longrightarrow> cell g' x y z \<noteq> cell g x y z \<Longrightarrow>
     0 \<le> x \<and> x < width wsize \<and> 0 \<le> z \<and> z < width wsize"
  unfolding widthKept_def by blast

lemma widthKept_trans:
  assumes "widthKept wsize g g1" "widthKept wsize g1 g2"
  shows "widthKept wsize g g2"
  unfolding widthKept_def
proof (intro allI impI)
  fix x y z
  assume ne: "cell g2 x y z \<noteq> cell g x y z"
  show "0 \<le> x \<and> x < width wsize \<and> 0 \<le> z \<and> z < width wsize"
  proof (cases "cell g2 x y z = cell g1 x y z")
    case True
    with ne have "cell g1 x y z \<noteq> cell g x y z" by simp
    then show ?thesis by (rule widthKeptD[OF assms(1)])
  next
    case False
    then show ?thesis by (rule widthKeptD[OF assms(2)])
  qed
qed

lemma setBlock_widthKept:
  assumes "setBlock g x y z v = Inr g'"
    and "0 \<le> x" "x < width wsize" "0 \<le> z" "z < width wsize"
  shows "widthKept wsize g g'"
  using assms(2-) by (simp add: widthKept_def setBlock_cell[OF assms(1)])

lemma leafCell_widthKept:
  assumes run: "leafCell env params cx cy cz rad x y z st = Inr st'"
    and "0 \<le> cx + x" "cx + x < width wsize" "0 \<le> cz + z" "cz + z < width wsize"
  shows "widthKept wsize (snd st) (snd st')"
proof -
  obtain r1 g1 where st: "st = (r1, g1)" by (cases st)
  obtain r2 g2 where st': "st' = (r2, g2)" by (cases st')
  show ?thesis
    unfolding widthKept_def st st' snd_conv
  proof (intro allI impI)
    fix x' y' z'
    assume "cell g2 x' y' z' \<noteq> cell g1 x' y' z'"
    with leafCell_cell[OF run[unfolded st st'], of x' y' z']
    have "x' = cx + x" "z' = cz + z" by auto
    with assms(2-) show "0 \<le> x' \<and> x' < width wsize \<and> 0 \<le> z' \<and> z' < width wsize" by simp
  qed
qed

lemma generateCanopy_widthKept:
  assumes run: "generateCanopy env params cx cy cz rad st = Inr st'"
    and inx: "\<And>x. x \<in> set [- rad..rad] \<Longrightarrow> 0 \<le> cx + x \<and> cx + x < width wsize"
    and inz: "\<And>z. z \<in> set [- rad..rad] \<Longrightarrow> 0 \<le> cz + z \<and> cz + z < width wsize"
  shows "widthKept wsize (snd st) (snd st')"
proof -
  let ?P = "\<lambda>t. widthKept wsize (snd st) (snd t)"
  have cellstep: "?P t'"
    if "x \<in> set [- rad..rad]" "z \<in> set [- rad..rad]" "?P t"
      "leafCell env params cx cy cz rad x y z t = Inr t'" for x y z t t'
    using widthKept_trans[OF that(3) leafCell_widthKept[OF that(4)]] inx[OF that(1)] inz[OF that(2)]
    by simp
  have rowstep: "?P t'"
    if "x \<in> set [- rad..rad]" "?P t"
      "forM [- rad..rad] (\<lambda>z. leafCell env params cx cy cz rad x y z) t = Inr t'" for x y t t'
    by (rule forM_invariant[OF that(3), where P = ?P, OF that(2)]) (rule cellstep[OF that(1)])
  have planestep: "?P t'"
    if "x \<in> set [- rad..rad]" "?P t"
      "forM [- rad..rad] (\<lambda>y. forM [- rad..rad]
          (\<lambda>z. leafCell env params cx cy cz rad x y z)) t = Inr t'" for x t t'
    by (rule forM_invariant[OF that(3), where P = ?P, OF that(2)]) (rule rowstep[OF that(1)])
  show ?thesis
    by (rule forM_invariant[OF run[unfolded generateCanopy_def], where P = ?P])
       (simp add: widthKept_refl, rule planestep)
qed

lemma trunk_widthKept:
  assumes run: "forM ys (\<lambda>i inp. setBlock inp x i z OakLog) g = Inr g'"
    and "0 \<le> x" "x < width wsize" "0 \<le> z" "z < width wsize"
  shows "widthKept wsize g g'"
  by (rule forM_invariant[OF run, where P = "\<lambda>t. widthKept wsize g t"])
     (auto intro: widthKept_refl widthKept_trans setBlock_widthKept[OF _ assms(2-)])

lemma growTree_widthKept:
  assumes run: "growTree env params baseX baseZ y st = Inr st'"
    and c: "0 \<le> trees_canopy_size_min params"
      "trees_canopy_size_min params \<le> trees_canopy_size_max params"
    and draws: "\<forall>s. 0 \<le> fst (RNG_random env s) \<and> fst (RNG_random env s) \<le> 1"
    and b: "baseX \<in> set (candidates wsize params)" "baseZ \<in> set (candidates wsize params)"
  shows "widthKept wsize (snd st) (snd st')"
proof -
  obtain rng g where st: "st = (rng, g)" by (cases st)
  obtain r1 rng1 where d1: "RNG_random env rng = (r1, rng1)" by (cases "RNG_random env rng")
  obtain r2 rng2 where d2: "RNG_random env rng1 = (r2, rng2)" by (cases "RNG_random env rng1")
  define th where "th = drawSize r1 (trees_trunkHeight_min params) (trees_trunkHeight_max params)"
  define rad where "rad = drawSize r2 (trees_canopy_size_min params) (trees_canopy_size_max params)"
  have r2: "0 \<le> r2" "r2 \<le> 1" using draws[rule_format, of rng1] by (simp_all add: d2)
  from run obtain g1 where
    trunk: "forM [y + 1..y + 1 + th - 1] (\<lambda>i inp. setBlock inp baseX i baseZ OakLog) g = Inr g1"
    and can: "generateCanopy env params baseX (y + 1 + th) baseZ rad (rng2, g1) = Inr st'"
    by (auto simp: growTree_def st d1 d2 Let_def th_def rad_def split: sum.splits)
  have base: "0 \<le> baseX" "baseX < width wsize" "0 \<le> baseZ" "baseZ < width wsize"
    using b c by (auto simp: candidates_def Let_def)
  have off: "0 \<le> baseX + x \<and> baseX + x < width wsize \<and> 0 \<le> baseZ + z \<and> baseZ + z < width wsize"
    if "x \<in> set [- rad..rad]" "z \<in> set [- rad..rad]" for x z
    using tree_indices_in_width[OF c r2 b, of x z] that by (simp add: rad_def)
  have zero: "0 \<in> set [- rad..rad]"
    using drawSize_range[OF r2 c(2)] c(1) by (simp add: rad_def)
  have "widthKept wsize g1 (snd st')"
    using generateCanopy_widthKept[OF can, of wsize] off zero by (metis snd_conv)
  with trunk_widthKept[OF trunk base] show ?thesis
    by (auto simp: st intro: widthKept_trans)
qed

lemma scanCell_widthKept:
  assumes run: "scanCell env params baseX baseZ y st = Inr st'"
    and c: "0 \<le> trees_canopy_size_min params"
      "trees_canopy_size_min params \<le> trees_canopy_size_max params"
    and draws: "\<forall>s. 0 \<le> fst (RNG_random env s) \<and> fst (RNG_random env s) \<le> 1"
    and b: "baseX \<in> set (candidates wsize params)" "baseZ \<in> set (candidates wsize params)"
  shows "widthKept wsize (snd st) (snd st')"
  using run growTree_widthKept[OF _ c draws b, of y st st']
  by (auto simp: scanCell_def widthKept_refl split: sum.splits if_splits)

lemma treeColumn_widthKept:
  assumes run: "treeColumn env simplex wsize params chunkPos baseX baseZ st = Inr st'"
    and c: "0 \<le> trees_canopy_size_min params"
      "trees_canopy_size_min params \<le> trees_canopy_size_max params"
    and draws: "\<forall>s. 0 \<le> fst (RNG_random env s) \<and> fst (RNG_random env s) \<le> 1"
    and b: "baseX \<in> set (candidates wsize params)" "baseZ \<in> set (candidates wsize params)"
  shows "widthKept wsize (snd st) (snd st')"
proof (cases "treeNoise simplex chunkPos baseX baseZ < 1 - trees_frequency params")
  case True
  with run show ?thesis by (simp add: treeColumn_def Let_def widthKept_refl)
next
  case False
  with run have scan: "forM (rev [0..height wsize - 1]) (scanCell env params baseX baseZ) st = Inr st'"
    by (simp add: treeColumn_def Let_def)
  show ?thesis
    by (rule forM_invariant[OF scan, where P = "\<lambda>t. widthKept wsize (snd st) (snd t)"])
       (auto intro: widthKept_refl widthKept_trans scanCell_widthKept[OF _ c draws b])
qed

lemma generateTrees_widthKept:
  assumes run: "generateTrees env rng input wsize params chunkPos = Inr (rng', out)"
    and c: "0 \<le> trees_canopy_size_min params"
      "trees_canopy_size_min params \<le> trees_canopy_size_max params"
    and draws: "\<forall>s. 0 \<le> fst (RNG_random env s) \<and> fst (RNG_random env s) \<le> 1"
  shows "widthKept wsize input out"
proof -
  obtain simplex rng1 where sx: "SimplexNoise_new env rng = (simplex, rng1)"
    by (cases "SimplexNoise_new env rng")
  let ?P = "\<lambda>t. widthKept wsize input (snd t)"
  from run have loops: "forM (candidates wsize params) (\<lambda>baseX.
            forM (candidates wsize params) (\<lambda>baseZ.
              treeColumn env simplex wsize params chunkPos baseX baseZ)) (rng1, input)
          = Inr (rng', out)"
    by (simp add: generateTrees_def sx)
  have col: "?P t'"
    if "baseX \<in> set (candidates wsize params)" "baseZ \<in> set (candidates wsize params)" "?P t"
      "treeColumn env simplex wsize params chunkPos baseX baseZ t = Inr t'" for baseX baseZ t t'
    using widthKept_trans[OF that(3) treeColumn_widthKept[OF that(4) c draws that(1,2)]] .
  have row: "?P t'"
    if "baseX \<in> set (candidates wsize params)" "?P t"
      "forM (candidates wsize params)
         (\<lambda>baseZ. treeColumn env simplex wsize params chunkPos baseX baseZ) t = Inr t'"
    for baseX t t'
    by (rule forM_invariant[OF that(3), where P = ?P, OF that(2)]) (rule col[OF that(1)])
  have "?P (rng', out)"
    by (rule forM_invariant[OF loops, where P = ?P]) (simp add: widthKept_refl, rule row)
  then show ?thesis by simp
qed

text \<open>
  Claim C10. With \<open>0 \<le> canopy.size.min \<le> canopy.size.max\<close> and draws in \<open>[0, 1]\<close>,
  whatever \<open>generateTrees\<close> writes, trunk or canopy, it writes within the width of the
  chunk: a cell that differs after the stage has its \<open>x\<close> and its \<open>z\<close> in \<open>[0, width)\<close>,
  on every input grid. And on a grid of the chunk in which the trees have room above and
  below, the stage does not throw and leaves the grid populated: no access has indexed
  \<open>input[x]\<close> outside the width (that throws), and no write has made a cell outside it.
  Only the vertical index can leave the grid.
\<close>

theorem generateTrees_writes_in_width:
  assumes c: "0 \<le> trees_canopy_size_min params"
      "trees_canopy_size_min params \<le> trees_canopy_size_max params"
    and draws: "\<forall>s. 0 \<le> fst (RNG_random env s) \<and> fst (RNG_random env s) \<le> 1"
  shows "(\<forall>rng' out x y z.
            generateTrees env rng input wsize params chunkPos = Inr (rng', out)
            \<and> cell out x y z \<noteq> cell input x y z
          \<longrightarrow> 0 \<le> x \<and> x < width wsize \<and> 0 \<le> z \<and> z < width wsize)
       \<and> (populated wsize input \<and> grassBelow hf input \<and> treeFits wsize params hf
            \<and> trees_trunkHeight_min params \<le> trees_trunkHeight_max params
          \<longrightarrow> (\<exists>rng' out. generateTrees env rng input wsize params chunkPos = Inr (rng', out)
                 \<and> populated wsize out))"
proof (intro conjI allI impI)
  fix rng' out x y z
  assume a: "generateTrees env rng input wsize params chunkPos = Inr (rng', out)
            \<and> cell out x y z \<noteq> cell input x y z"
  then have "widthKept wsize input out"
    using generateTrees_widthKept[OF _ c draws] by blast
  with a show "0 \<le> x" "x < width wsize" "0 \<le> z" "z < width wsize"
    using widthKeptD by blast+
next
  assume a: "populated wsize input \<and> grassBelow hf input \<and> treeFits wsize params hf
            \<and> trees_trunkHeight_min params \<le> trees_trunkHeight_max params"
  then have "treeReady wsize hf input" by (simp add: treeReady_def)
  from generateTrees_total[OF this _ c _ draws] a
  show "\<exists>rng' out. generateTrees env rng input wsize params chunkPos = Inr (rng', out)
                 \<and> populated wsize out" by blast
qed

lemma example_wide_run:
  "\<exists>rng' out. generateTrees (flatRandom 0 (1/2)) 0 wideGrass wideSize wideLeafy origin
       = Inr (rng', out)
     \<and> cell out 0 2 2 = Some Leaves \<and> cell out 2 1 2 = Some OakLog"
  by (simp add: generateTrees_def candidates_def treeColumn_def treeNoise_def scanCell_def
      growTree_def generateCanopy_def leafCell_def drawSize_def upto.simps round_def
      flatRandom_def flatNoise_def wideLeafy_def wideCanopy_def exampleParams_def wideSize_def
      origin_def getBlock_def setBlock_def wideGrass_def cell_def)


lemma wideGrass_cell:
  "cell wideGrass x y z =
     (if 0 \<le> x \<and> x < 5 \<and> 0 \<le> y \<and> y < 6 \<and> 0 \<le> z \<and> z < 5
      then Some (if x = 2 \<and> y = 0 \<and> z = 2 then Grass else Air) else None)"
  by (simp add: cell_def wideGrass_def)

lemma wideGrass_hasRow: "hasRow wideGrass x y = (0 \<le> x \<and> x < 5 \<and> 0 \<le> y \<and> y < 6)"
  by (auto simp: hasRow_def wideGrass_def)

lemma wideGrass_populated: "populated wideSize wideGrass"
  by (simp add: populated_def wideGrass_cell wideGrass_hasRow inChunk_def wideSize_def)

lemma wideGrass_grassBelow: "grassBelow (\<lambda>x z. 0) wideGrass"
  by (auto simp: grassBelow_def wideGrass_cell split: if_splits)

lemma wideLeafy_fits: "treeFits wideSize wideLeafy (\<lambda>x z. 0)"
  by (simp add: treeFits_def wideSize_def wideLeafy_def wideCanopy_def exampleParams_def)

theorem generateTrees_writes_in_width_witness:
  "(\<exists>rng' out. generateTrees (flatRandom 0 (1/2)) 0 wideGrass wideSize wideLeafy origin
        = Inr (rng', out)
      \<and> cell out 0 2 2 = Some Leaves \<and> cell wideGrass 0 2 2 = Some Air
      \<and> populated wideSize out)
   \<and> (0::int) \<le> 0 \<and> 0 < width wideSize \<and> 2 < width wideSize
   \<and> 0 \<le> trees_canopy_size_min wideLeafy
   \<and> trees_canopy_size_min wideLeafy \<le> trees_canopy_size_max wideLeafy
   \<and> populated wideSize wideGrass \<and> grassBelow (\<lambda>x z. 0) wideGrass
   \<and> treeFits wideSize wideLeafy (\<lambda>x z. 0)"
proof -
  have c: "0 \<le> trees_canopy_size_min wideLeafy"
      "trees_canopy_size_min wideLeafy \<le> trees_canopy_size_max wideLeafy"
    and t: "trees_trunkHeight_min wideLeafy \<le> trees_trunkHeight_max wideLeafy"
    by (simp_all add: wideLeafy_def wideCanopy_def exampleParams_def)
  have draws: "\<forall>s. 0 \<le> fst (RNG_random (flatRandom 0 (1/2)) s)
                 \<and> fst (RNG_random (flatRandom 0 (1/2)) s) \<le> 1"
    by (simp add: flatRandom_def)
  note inst = generateTrees_writes_in_width[OF c draws, of 0 wideGrass wideSize origin "\<lambda>x z. 0"]
  from example_wide_run obtain rng' out where
    run: "generateTrees (flatRandom 0 (1/2)) 0 wideGrass wideSize wideLeafy origin = Inr (rng', out)"
    and leaf: "cell out 0 2 2 = Some Leaves" by blast
  have air: "cell wideGrass 0 2 2 = Some Air" by (simp add: wideGrass_cell)
  from leaf air have ne: "cell out 0 2 2 \<noteq> cell wideGrass 0 2 2" by simp
  from inst run ne have w: "(0::int) \<le> 0 \<and> 0 < width wideSize \<and> 2 < width wideSize" by blast
  from inst wideGrass_populated wideGrass_grassBelow wideLeafy_fits t run
  have "populated wideSize out" by auto
  with run leaf air w c wideGrass_populated wideGrass_grassBelow wideLeafy_fits
  show ?thesis by blast
qed

section \<open>The whole chunk\<close>

text \<open>
  Claim C1, as amended. For a valid configuration in which moreover every tree fits
  between the floor and the ceiling of the world (surface height + trunkHeight.max +
  canopy.size.max + 1 < height in every candidate column, and
  canopy.size.max \<le> trunkHeight.min + 1),
  with draws in \<open>[0, 1]\<close> and sizes below \<open>2^32\<close>, \<open>generateChunk\<close> returns a fully
  populated grid of the configured dimensions. Every loop of the model runs over a finite
  list of indices, so the function always terminates.
\<close>

theorem chunk_with_room_is_populated:
  assumes w: "0 < width wsize" "width wsize < 4294967296"
    and h: "0 < height wsize" "height wsize < 4294967296"
    and c: "0 \<le> trees_canopy_size_min params"
      "trees_canopy_size_min params \<le> trees_canopy_size_max params"
    and t: "0 \<le> trees_trunkHeight_min params"
      "trees_trunkHeight_min params \<le> trees_trunkHeight_max params"
    and draws: "\<forall>s. 0 \<le> fst (RNG_random env s) \<and> fst (RNG_random env s) \<le> 1"
    and fits: "treeFits wsize params
        (columnHeight (terrainSimplex env params) wsize params \<lparr>vec_x = x, vec_y = 0, vec_z = z\<rparr>)"
  shows "\<exists>out. generateChunk env oreConfig wsize params x z = Inr out \<and> populated wsize out"
proof -
  let ?pos = "\<lparr>vec_x = x, vec_y = 0, vec_z = z\<rparr>"
  let ?rng = "RNG_new env (seed params)"
  have init: "initEmptyChunk wsize = Inr (emptyChunk wsize)"
    using w h by (simp add: initEmptyChunk_eq)
  from generateResources_populated[OF populated_emptyChunk[of wsize],
      where env = env and oreConfig = oreConfig and rng = "?rng" and p = "?pos"]
  obtain rng1 g1 where res: "generateResources env oreConfig ?rng (emptyChunk wsize) wsize ?pos
      = Inr (rng1, g1)" and p1: "populated wsize g1" by blast
  have rng1: "rng1 = snd (SimplexNoise_new env ?rng)"
    using res by (simp add: generateResources_Inr)
  from generateTerrain_populated[OF p1, where env = env and rng = rng1 and params = params
      and p = "?pos"]
  obtain rng2 g2 where ter: "generateTerrain env rng1 g1 wsize params ?pos = Inr (rng2, g2)"
    and p2: "populated wsize g2" by blast
  have "grassBelow (columnHeight (terrainSimplex env params) wsize params ?pos) g2"
    using generateTerrain_grassBelow[OF ter p1] by (simp add: terrainSimplex_def rng1)
  with p2 have ready: "treeReady wsize
      (columnHeight (terrainSimplex env params) wsize params ?pos) g2"
    by (simp add: treeReady_def)
  from generateTrees_total[OF ready fits c t(2) draws, where rng = rng2 and chunkPos = "?pos"]
  obtain rng3 g3 where tre: "generateTrees env rng2 g2 wsize params ?pos = Inr (rng3, g3)"
    and p3: "populated wsize g3" by blast
  have "generateChunk env oreConfig wsize params x z = Inr g3"
    by (simp add: generateChunk_def Let_def init res ter tre)
  with p3 show ?thesis by blast
qed

theorem chunk_with_room_is_populated_witness:
  "0 < width exampleSize \<and> width exampleSize < 4294967296
   \<and> 0 < height exampleSize \<and> height exampleSize < 4294967296
   \<and> 0 \<le> trees_canopy_size_min exampleParams
   \<and> trees_canopy_size_min exampleParams \<le> trees_canopy_size_max exampleParams
   \<and> 0 \<le> trees_trunkHeight_min exampleParams
   \<and> trees_trunkHeight_min exampleParams \<le> trees_trunkHeight_max exampleParams
   \<and> generateChunk (flatRandom 0 0) exampleOres exampleSize exampleParams 0 0 = Inr exampleChunk
   \<and> populated exampleSize exampleChunk"
proof -
  have w: "0 < width exampleSize" "width exampleSize < 4294967296"
    and h: "0 < height exampleSize" "height exampleSize < 4294967296"
    by (simp_all add: exampleSize_def)
  have c: "0 \<le> trees_canopy_size_min exampleParams"
      "trees_canopy_size_min exampleParams \<le> trees_canopy_size_max exampleParams"
    and t: "0 \<le> trees_trunkHeight_min exampleParams"
      "trees_trunkHeight_min exampleParams \<le> trees_trunkHeight_max exampleParams"
    by (simp_all add: exampleParams_def)
  have draws: "\<forall>s. 0 \<le> fst (RNG_random (flatRandom 0 0) s) \<and> fst (RNG_random (flatRandom 0 0) s) \<le> 1"
    by (simp add: flatRandom_def)
  have fits: "treeFits exampleSize exampleParams
        (columnHeight (terrainSimplex (flatRandom 0 0) exampleParams) exampleSize exampleParams
           \<lparr>vec_x = 0, vec_y = 0, vec_z = 0\<rparr>)"
    by (simp add: treeFits_def terrainSimplex_def columnHeight_def flatRandom_def flatNoise_def
        exampleSize_def exampleParams_def)
  from chunk_with_room_is_populated[OF w h c t draws fits, where oreConfig = exampleOres]
  have "populated exampleSize exampleChunk" by (simp add: example_chunk_run)
  with w h c t example_chunk_run show ?thesis by simp
qed

text \<open>
  The claim as stated fails: the configuration below is valid, the surface of the column
  is at height 2 of 4, the trunk of one block stands at height 3, and the read of the
  canopy centre at height 4 is a read of \<open>input[0][4][0]\<close> with \<open>input[0][4]\<close> undefined.
\<close>

theorem chunk_without_room_throws:
  "0 < width lowSize \<and> 0 < height lowSize
   \<and> 0 \<le> trees_canopy_size_min exampleParams
   \<and> trees_canopy_size_min exampleParams \<le> trees_canopy_size_max exampleParams
   \<and> 0 \<le> trees_trunkHeight_min exampleParams
   \<and> trees_trunkHeight_min exampleParams \<le> trees_trunkHeight_max exampleParams
   \<and> 0 < terrain_scale exampleParams
   \<and> 0 < config_scale_x exampleOre \<and> 0 < config_scale_y exampleOre
   \<and> 0 < config_scale_z exampleOre
   \<and> generateChunk (flatRandom 0 0) [exampleOre] lowSize exampleParams 0 0 = Inl TypeError"
  by (simp add: generateChunk_def initEmptyChunk_def initPlane_def initRow_def newArray_def
      generateResources_def orePass_def oreCell_def oreSample_def exampleOre_def
      generateTerrain_def terrainColumn_def terrainCell_def
      columnHeight_def numSurfaceBlocks_def numBedrockBlocks_def
      generateTrees_def candidates_def treeColumn_def treeNoise_def scanCell_def
      growTree_def generateCanopy_def
      leafCell_def drawSize_def upto.simps flatRandom_def flatNoise_def exampleParams_def
      lowSize_def getBlock_def setBlock_def)

section \<open>Determinism\<close>

lemma sameOutcome_Inr [simp]: "sameOutcome R (Inr t1) (Inr t2) = sameGrid R t1 t2"
  by (simp add: sameOutcome_def)

lemma sameOutcome_Inl [simp]: "sameOutcome R (Inl e1) (Inl e2) = (e1 = e2)"
  by (simp add: sameOutcome_def)

lemma forM_sameOutcome:
  assumes "sameGrid R s1 s2"
    and "\<And>a t1 t2. a \<in> set xs \<Longrightarrow> sameGrid R t1 t2 \<Longrightarrow> sameOutcome R (f1 a t1) (f2 a t2)"
  shows "sameOutcome R (forM xs f1 s1) (forM xs f2 s2)"
  using assms
proof (induction xs arbitrary: s1 s2)
  case Nil
  then show ?case by simp
next
  case (Cons a xs)
  have step: "sameOutcome R (f1 a s1) (f2 a s2)"
    using Cons.prems by simp
  show ?case
  proof (cases "f1 a s1")
    case (Inl e)
    with step show ?thesis by (cases "f2 a s2") (simp_all add: sameOutcome_def)
  next
    case (Inr t1)
    with step obtain t2 where t2: "f2 a s2 = Inr t2" "sameGrid R t1 t2"
      by (cases "f2 a s2") (simp_all add: sameOutcome_def)
    from Cons.IH[OF t2(2)] Cons.prems(2) have "sameOutcome R (forM xs f1 t1) (forM xs f2 t2)"
      by simp
    with Inr t2 show ?thesis by simp
  qed
qed

lemma sameDraws_random:
  assumes "sameDraws R e1 e2" "R a b"
  obtains r a' b' where "RNG_random e1 a = (r, a')" "RNG_random e2 b = (r, b')" "R a' b'"
proof -
  from assms have "fst (RNG_random e1 a) = fst (RNG_random e2 b)"
    "R (snd (RNG_random e1 a)) (snd (RNG_random e2 b))"
    unfolding sameDraws_def by blast+
  then show ?thesis
    using that[of "fst (RNG_random e1 a)" "snd (RNG_random e1 a)" "snd (RNG_random e2 b)"]
    by (simp add: prod_eq_iff)
qed

lemma sameDraws_simplex:
  assumes "sameDraws R e1 e2" "R a b"
  obtains sx a' b' where "SimplexNoise_new e1 a = (sx, a')" "SimplexNoise_new e2 b = (sx, b')"
    "R a' b'"
proof -
  from assms have "fst (SimplexNoise_new e1 a) = fst (SimplexNoise_new e2 b)"
    "R (snd (SimplexNoise_new e1 a)) (snd (SimplexNoise_new e2 b))"
    unfolding sameDraws_def by blast+
  then show ?thesis
    using that[of "fst (SimplexNoise_new e1 a)" "snd (SimplexNoise_new e1 a)"
        "snd (SimplexNoise_new e2 b)"]
    by (simp add: prod_eq_iff)
qed

lemma sameOutcome_cases:
  assumes "sameOutcome R res1 res2"
  obtains e where "res1 = Inl e" "res2 = Inl e"
  | a b g where "res1 = Inr (a, g)" "res2 = Inr (b, g)" "R a b"
  using assms
  by (cases res1; cases res2) (auto simp: sameOutcome_def sameGrid_def prod_eq_iff)

lemma generateResources_sameOutcome:
  assumes d: "sameDraws R e1 e2" and ab: "R a b"
  shows "sameOutcome R (generateResources e1 oreConfig a g wsize chunkPos)
           (generateResources e2 oreConfig b g wsize chunkPos)"
proof -
  from sameDraws_simplex[OF d ab] obtain sx a' b' where
    sx: "SimplexNoise_new e1 a = (sx, a')" "SimplexNoise_new e2 b = (sx, b')" "R a' b'" by blast
  show ?thesis
    by (simp add: generateResources_def sx sameGrid_def split: sum.splits)
qed

lemma generateTerrain_sameOutcome:
  assumes d: "sameDraws R e1 e2" and ab: "R a b"
  shows "sameOutcome R (generateTerrain e1 a g wsize params chunkPos)
           (generateTerrain e2 b g wsize params chunkPos)"
proof -
  from sameDraws_simplex[OF d ab] obtain sx a' b' where
    sx: "SimplexNoise_new e1 a = (sx, a')" "SimplexNoise_new e2 b = (sx, b')" "R a' b'" by blast
  show ?thesis
    by (simp add: generateTerrain_def sx sameGrid_def split: sum.splits)
qed

lemma leafCell_sameOutcome:
  assumes d: "sameDraws R e1 e2" and s: "sameGrid R t1 t2"
  shows "sameOutcome R (leafCell e1 params cx cy cz rad x y z t1)
           (leafCell e2 params cx cy cz rad x y z t2)"
proof -
  obtain a g where t1: "t1 = (a, g)" by (cases t1)
  obtain b where t2: "t2 = (b, g)" and ab: "R a b"
    using s by (cases t2) (simp add: sameGrid_def t1)
  from sameDraws_random[OF d ab] obtain r a' b' where
    r: "RNG_random e1 a = (r, a')" "RNG_random e2 b = (r, b')" "R a' b'" by blast
  show ?thesis
    using ab r
    by (auto simp: leafCell_def t1 t2 sameGrid_def split: sum.splits)
qed

lemma generateCanopy_sameOutcome:
  assumes d: "sameDraws R e1 e2" and s: "sameGrid R t1 t2"
  shows "sameOutcome R (generateCanopy e1 params cx cy cz rad t1)
           (generateCanopy e2 params cx cy cz rad t2)"
  unfolding generateCanopy_def
  by (intro forM_sameOutcome s leafCell_sameOutcome d)

lemma growTree_sameOutcome:
  assumes d: "sameDraws R e1 e2" and s: "sameGrid R t1 t2"
  shows "sameOutcome R (growTree e1 params baseX baseZ y t1) (growTree e2 params baseX baseZ y t2)"
proof -
  obtain a g where t1: "t1 = (a, g)" by (cases t1)
  obtain b where t2: "t2 = (b, g)" and ab: "R a b"
    using s by (cases t2) (simp add: sameGrid_def t1)
  from sameDraws_random[OF d ab] obtain r1 a1 b1 where
    r1: "RNG_random e1 a = (r1, a1)" "RNG_random e2 b = (r1, b1)" "R a1 b1" by blast
  from sameDraws_random[OF d r1(3)] obtain r2 a2 b2 where
    r2: "RNG_random e1 a1 = (r2, a2)" "RNG_random e2 b1 = (r2, b2)" "R a2 b2" by blast
  have c: "sameOutcome R (generateCanopy e1 params cx cy cz rad (a2, g1))
           (generateCanopy e2 params cx cy cz rad (b2, g1))" for cx cy cz rad g1
    by (rule generateCanopy_sameOutcome[OF d]) (simp add: sameGrid_def r2)
  show ?thesis
    using c by (simp add: growTree_def t1 t2 r1 r2 Let_def split: sum.splits)
qed

lemma scanCell_sameOutcome:
  assumes d: "sameDraws R e1 e2" and s: "sameGrid R t1 t2"
  shows "sameOutcome R (scanCell e1 params baseX baseZ y t1) (scanCell e2 params baseX baseZ y t2)"
  using s growTree_sameOutcome[OF d s, of params baseX baseZ y]
  by (auto simp: scanCell_def sameGrid_def split: sum.splits)

lemma treeColumn_sameOutcome:
  assumes d: "sameDraws R e1 e2" and s: "sameGrid R t1 t2"
  shows "sameOutcome R (treeColumn e1 simplex wsize params chunkPos baseX baseZ t1)
           (treeColumn e2 simplex wsize params chunkPos baseX baseZ t2)"
  unfolding treeColumn_def Let_def
  using s by (auto intro!: forM_sameOutcome scanCell_sameOutcome d)

lemma generateTrees_sameOutcome:
  assumes d: "sameDraws R e1 e2" and ab: "R a b"
  shows "sameOutcome R (generateTrees e1 a g wsize params chunkPos)
           (generateTrees e2 b g wsize params chunkPos)"
proof -
  from sameDraws_simplex[OF d ab] obtain sx a' b' where
    sx: "SimplexNoise_new e1 a = (sx, a')" "SimplexNoise_new e2 b = (sx, b')" "R a' b'" by blast
  show ?thesis
    unfolding generateTrees_def sx prod.case
    by (intro forM_sameOutcome treeColumn_sameOutcome d) (simp add: sameGrid_def sx)
qed

lemma generateChunk_runStages:
  "generateChunk env oreConfig chunkSize params x z =
     (case initEmptyChunk chunkSize of
        Inl e \<Rightarrow> Inl e
      | Inr data0 \<Rightarrow>
          (case runStages env oreConfig chunkSize params \<lparr>vec_x = x, vec_y = 0, vec_z = z\<rparr>
                  (RNG_new env (seed params)) data0 of
             Inl e \<Rightarrow> Inl e
           | Inr (rng3, data3) \<Rightarrow> Inr data3))"
  by (simp add: generateChunk_def runStages_def Let_def split: sum.splits prod.splits)

lemma runStages_sameOutcome:
  assumes d: "sameDraws R e1 e2" and ab: "R a b"
  shows "sameOutcome R (runStages e1 oreConfig chunkSize params chunkPos a input)
           (runStages e2 oreConfig chunkSize params chunkPos b input)"
proof -
  from generateResources_sameOutcome[OF d ab, of oreConfig input chunkSize chunkPos]
  show ?thesis
  proof (cases rule: sameOutcome_cases)
    case (1 e)
    then show ?thesis by (simp add: runStages_def)
  next
    case res: (2 a1 b1 data1)
    from generateTerrain_sameOutcome[OF d res(3), of data1 chunkSize params chunkPos]
    show ?thesis
    proof (cases rule: sameOutcome_cases)
      case (1 e)
      with res show ?thesis by (simp add: runStages_def)
    next
      case ter: (2 a2 b2 data2)
      from generateTrees_sameOutcome[OF d ter(3), of data2 chunkSize params chunkPos]
      show ?thesis using res ter by (simp add: runStages_def)
    qed
  qed
qed

lemma byReference_sameDraws: "sameDraws pointsTo (byReference env) env"
  by (auto simp: sameDraws_def pointsTo_def byReference_def newRNG_def split: prod.splits)

lemma newRNG_pointsTo: "pointsTo (newRNG env s store) (RNG_new env s)"
  by (simp add: pointsTo_def newRNG_def)

lemma generateChunkIn_outcome:
  "outcome (generateChunkIn env oreConfig chunkSize params x z store)
     = generateChunk env oreConfig chunkSize params x z"
proof (cases "initEmptyChunk chunkSize")
  case (Inl e)
  then show ?thesis by (simp add: generateChunkIn_def generateChunk_runStages outcome_def)
next
  case (Inr data0)
  let ?pos = "\<lparr>vec_x = x, vec_y = 0, vec_z = z\<rparr>"
  from runStages_sameOutcome[OF byReference_sameDraws[of env]
      newRNG_pointsTo[of env "seed params" store],
      where oreConfig = oreConfig and chunkSize = chunkSize and params = params
        and chunkPos = "?pos" and input = data0]
  show ?thesis
  proof (cases rule: sameOutcome_cases)
    case (1 e)
    with Inr show ?thesis by (simp add: generateChunkIn_def generateChunk_runStages outcome_def)
  next
    case (2 p s data3)
    with Inr show ?thesis
      by (cases p) (simp add: generateChunkIn_def generateChunk_runStages outcome_def)
  qed
qed

text \<open>
  Claim C5. Two calls of \<open>generateChunk\<close> with the same seed, world size, parameters,
  resource configuration and origin return the same grid (or throw the same error) in
  whatever stores they run, the second one for instance in the store that the first one
  left, with its advanced generator in it: each call builds its grid anew, draws from
  the generator that it allocates itself, and reads no other object of the store.
  (A call that drew from a generator already in the store would start from the state
  that the earlier call left there, and the statement would fail.)
\<close>

theorem two_calls_same_grid:
  "outcome (generateChunkIn env oreConfig chunkSize params x z store)
     = outcome (generateChunkIn env oreConfig chunkSize params x z store')"
  by (simp add: generateChunkIn_outcome)

theorem two_calls_same_grid_witness:
  "\<exists>store1 store2.
     generateChunkIn (flatRandom 0 0) exampleOres exampleSize exampleParams 0 0 emptyStore
       = Inr (exampleChunk, store1)
     \<and> generateChunkIn (flatRandom 0 0) exampleOres exampleSize exampleParams 0 0 store1
       = Inr (exampleChunk, store2)"
proof -
  have "outcome (generateChunkIn (flatRandom 0 0) exampleOres exampleSize exampleParams 0 0
      emptyStore) = Inr exampleChunk"
    by (simp add: generateChunkIn_outcome example_chunk_run)
  then obtain store1 where
    one: "generateChunkIn (flatRandom 0 0) exampleOres exampleSize exampleParams 0 0 emptyStore
       = Inr (exampleChunk, store1)"
    by (auto simp: outcome_def split: sum.splits)
  from two_calls_same_grid[of "flatRandom 0 0" exampleOres exampleSize exampleParams 0 0
      store1 emptyStore] one
  have "outcome (generateChunkIn (flatRandom 0 0) exampleOres exampleSize exampleParams 0 0
      store1) = Inr exampleChunk"
    by (simp add: outcome_def)
  then obtain store2 where
    "generateChunkIn (flatRandom 0 0) exampleOres exampleSize exampleParams 0 0 store1
       = Inr (exampleChunk, store2)"
    by (auto simp: outcome_def split: sum.splits)
  with one show ?thesis by blast
qed

end
